theory Spec2Isabelle
  imports Complex_Main "HOL-Library.Sublist"
begin

section \<open>JavaScript strings\<close>

text \<open>
  A JavaScript string is a sequence of UTF-16 code units. A code unit is modelled as a
  natural number, a string as the list of its code units, so that the characters the
  source tells apart (U+2028 in a regular expression, the two code units of the action
  label the fusion operation passes) are what they are in the program. \<open>js\<close> turns an
  ASCII literal into its code units.
\<close>

type_synonym jsstring = "nat list"

definition js :: "string \<Rightarrow> jsstring" where
  "js s = map of_char s"

text \<open>\<^verbatim>\<open>s.includes(sub)\<close>: \<open>sub\<close> occurs in \<open>s\<close> as a contiguous block.\<close>

fun str_includes :: "jsstring \<Rightarrow> jsstring \<Rightarrow> bool" where
  "str_includes [] sub = (sub = [])"
| "str_includes (c # cs) sub = (prefix sub (c # cs) \<or> str_includes cs sub)"

text \<open>\<^verbatim>\<open>s.split(sep)\<close> for a separator of one code unit, and \<^verbatim>\<open>parts.join(sep)\<close>.\<close>

fun split_on :: "nat \<Rightarrow> jsstring \<Rightarrow> jsstring list" where
  "split_on sep [] = [[]]"
| "split_on sep (c # cs) =
     (if c = sep then [] # split_on sep cs
      else (case split_on sep cs of
              [] \<Rightarrow> [[c]]
            | p # ps \<Rightarrow> (c # p) # ps))"

fun join :: "jsstring \<Rightarrow> jsstring list \<Rightarrow> jsstring" where
  "join sep [] = []"
| "join sep [p] = p"
| "join sep (p # q # ps) = p @ sep @ join sep (q # ps)"

text \<open>The decimal digits of an array index, as a template literal prints it.\<close>

fun decimal :: "nat \<Rightarrow> jsstring" where
  "decimal n = (if n < 10 then [48 + n] else decimal (n div 10) @ [48 + n mod 10])"

text \<open>The character classes \<^verbatim>\<open>\d\<close> and \<^verbatim>\<open>\w\<close> of a regular expression without the
  unicode flag, and the line terminators that \<^verbatim>\<open>.\<close> does not match.\<close>

definition is_digit :: "nat \<Rightarrow> bool" where
  "is_digit c = (48 \<le> c \<and> c \<le> 57)"

definition is_word :: "nat \<Rightarrow> bool" where
  "is_word c = ((97 \<le> c \<and> c \<le> 122) \<or> (65 \<le> c \<and> c \<le> 90) \<or> is_digit c \<or> c = 95)"

definition is_line_terminator :: "nat \<Rightarrow> bool" where
  "is_line_terminator c = (c = 10 \<or> c = 13 \<or> c = 8232 \<or> c = 8233)"

section \<open>JSON.parse\<close>

text \<open>
  The value \<^verbatim>\<open>JSON.parse\<close> builds. A number keeps its lexeme: what double it denotes,
  whether that double is zero and how it prints are the host's floating point, taken
  as parameters (\<open>number_truthy\<close>, \<open>number_toString\<close> below).
\<close>

datatype json =
    JNull
  | JBool bool
  | JNumber jsstring
  | JString jsstring
  | JArray "json list"
  | JObject "(jsstring \<times> json) list"

definition is_ws :: "nat \<Rightarrow> bool" where
  "is_ws c = (c = 32 \<or> c = 9 \<or> c = 10 \<or> c = 13)"

definition skip_ws :: "jsstring \<Rightarrow> jsstring" where
  "skip_ws s = dropWhile is_ws s"

definition hex_value :: "nat \<Rightarrow> nat option" where
  "hex_value c =
     (if 48 \<le> c \<and> c \<le> 57 then Some (c - 48)
      else if 97 \<le> c \<and> c \<le> 102 then Some (c - 87)
      else if 65 \<le> c \<and> c \<le> 70 then Some (c - 55)
      else None)"

definition unescape :: "nat \<Rightarrow> nat option" where
  "unescape e =
     (if e = 34 then Some 34
      else if e = 47 then Some 47
      else if e = 92 then Some 92
      else if e = 98 then Some 8
      else if e = 102 then Some 12
      else if e = 110 then Some 10
      else if e = 114 then Some 13
      else if e = 116 then Some 9
      else None)"

definition cons_unit :: "nat \<Rightarrow> (jsstring \<times> jsstring) option \<Rightarrow> (jsstring \<times> jsstring) option" where
  "cons_unit c res = (case res of None \<Rightarrow> None | Some (s, r) \<Rightarrow> Some (c # s, r))"

text \<open>The characters of a JSON string after its opening quote: the decoded string and
  the input after the closing quote.\<close>

fun lex_chars :: "jsstring \<Rightarrow> (jsstring \<times> jsstring) option" where
  "lex_chars [] = None"
| "lex_chars (c # cs) =
     (if c = 34 then Some ([], cs)
      else if c = 92 then
        (case cs of
           [] \<Rightarrow> None
         | e # cs' \<Rightarrow>
             if e = 117 then
               (case cs' of
                  h1 # h2 # h3 # h4 # cs'' \<Rightarrow>
                    (case (hex_value h1, hex_value h2, hex_value h3, hex_value h4) of
                       (Some a, Some b, Some c', Some d) \<Rightarrow>
                         cons_unit (((a * 16 + b) * 16 + c') * 16 + d) (lex_chars cs'')
                     | _ \<Rightarrow> None)
                | _ \<Rightarrow> None)
             else
               (case unescape e of
                  None \<Rightarrow> None
                | Some u \<Rightarrow> cons_unit u (lex_chars cs')))
      else if c < 32 then None
      else cons_unit c (lex_chars cs))"

text \<open>A JSON number: \<^verbatim>\<open>-? (0 | [1-9][0-9]*) (. [0-9]+)? ([eE] [+-]? [0-9]+)?\<close>.\<close>

definition lex_int :: "jsstring \<Rightarrow> (jsstring \<times> jsstring) option" where
  "lex_int s =
     (case s of
        [] \<Rightarrow> None
      | c # cs \<Rightarrow>
          if c = 48 then Some ([c], cs)
          else if is_digit c then Some (c # takeWhile is_digit cs, dropWhile is_digit cs)
          else None)"

definition lex_frac :: "jsstring \<Rightarrow> jsstring \<times> jsstring" where
  "lex_frac s =
     (case s of
        c # d # cs \<Rightarrow>
          if c = 46 \<and> is_digit d
          then (c # d # takeWhile is_digit cs, dropWhile is_digit cs)
          else ([], s)
      | _ \<Rightarrow> ([], s))"

definition lex_digits1 :: "jsstring \<Rightarrow> jsstring \<Rightarrow> jsstring \<Rightarrow> jsstring \<times> jsstring" where
  "lex_digits1 pre s whole =
     (case s of
        d # cs \<Rightarrow>
          if is_digit d then (pre @ d # takeWhile is_digit cs, dropWhile is_digit cs)
          else ([], whole)
      | [] \<Rightarrow> ([], whole))"

definition lex_exp :: "jsstring \<Rightarrow> jsstring \<times> jsstring" where
  "lex_exp s =
     (case s of
        e # cs \<Rightarrow>
          if e = 101 \<or> e = 69 then
            (case cs of
               sg # cs' \<Rightarrow>
                 if sg = 43 \<or> sg = 45 then lex_digits1 [e, sg] cs' s
                 else lex_digits1 [e] cs s
             | [] \<Rightarrow> ([], s))
          else ([], s)
      | [] \<Rightarrow> ([], s))"

definition lex_number :: "jsstring \<Rightarrow> (jsstring \<times> jsstring) option" where
  "lex_number s =
     (let (sign, s1) = (case s of c # cs \<Rightarrow> if c = 45 then ([c], cs) else ([], s) | [] \<Rightarrow> ([], s))
      in case lex_int s1 of
           None \<Rightarrow> None
         | Some (i, s2) \<Rightarrow>
             (let (f, s3) = lex_frac s2; (e, s4) = lex_exp s3
              in Some (sign @ i @ f @ e, s4)))"

definition lex_literal :: "jsstring \<Rightarrow> (json \<times> jsstring) option" where
  "lex_literal s =
     (if prefix (js ''true'') s then Some (JBool True, drop 4 s)
      else if prefix (js ''false'') s then Some (JBool False, drop 5 s)
      else if prefix (js ''null'') s then Some (JNull, drop 4 s)
      else None)"

text \<open>
  Recursive descent over the JSON grammar. The first argument bounds the depth of the
  calls; \<open>JSON_parse\<close> starts with more than any input of that length can use (each
  call of \<open>parse_value\<close> that descends has consumed a bracket, each second call of
  \<open>parse_elements\<close> or \<open>parse_members\<close> a value and a comma). \<open>None\<close> is the
  \<^verbatim>\<open>SyntaxError\<close> of JSON.parse.
\<close>

fun parse_value :: "nat \<Rightarrow> jsstring \<Rightarrow> (json \<times> jsstring) option"
  and parse_elements :: "nat \<Rightarrow> jsstring \<Rightarrow> json list \<Rightarrow> (json \<times> jsstring) option"
  and parse_members :: "nat \<Rightarrow> jsstring \<Rightarrow> (jsstring \<times> json) list \<Rightarrow> (json \<times> jsstring) option"
where
  "parse_value 0 s = None"
| "parse_value (Suc n) s =
     (case skip_ws s of
        [] \<Rightarrow> None
      | c # cs \<Rightarrow>
          if c = 123 then
            (case skip_ws cs of
               [] \<Rightarrow> None
             | c' # r \<Rightarrow> if c' = 125 then Some (JObject [], r) else parse_members n cs [])
          else if c = 91 then
            (case skip_ws cs of
               [] \<Rightarrow> None
             | c' # r \<Rightarrow> if c' = 93 then Some (JArray [], r) else parse_elements n cs [])
          else if c = 34 then
            (case lex_chars cs of
               None \<Rightarrow> None
             | Some (str, r) \<Rightarrow> Some (JString str, r))
          else if c = 45 \<or> is_digit c then
            (case lex_number (c # cs) of
               None \<Rightarrow> None
             | Some (num, r) \<Rightarrow> Some (JNumber num, r))
          else lex_literal (c # cs))"
| "parse_elements 0 s acc = None"
| "parse_elements (Suc n) s acc =
     (case parse_value n s of
        None \<Rightarrow> None
      | Some (v, r) \<Rightarrow>
          (case skip_ws r of
             [] \<Rightarrow> None
           | c # r' \<Rightarrow>
               if c = 44 then parse_elements n r' (acc @ [v])
               else if c = 93 then Some (JArray (acc @ [v]), r')
               else None))"
| "parse_members 0 s acc = None"
| "parse_members (Suc n) s acc =
     (case skip_ws s of
        [] \<Rightarrow> None
      | q # cs \<Rightarrow>
          if q = 34 then
            (case lex_chars cs of
               None \<Rightarrow> None
             | Some (k, r) \<Rightarrow>
                 (case skip_ws r of
                    [] \<Rightarrow> None
                  | c # r' \<Rightarrow>
                      if c = 58 then
                        (case parse_value n r' of
                           None \<Rightarrow> None
                         | Some (v, r'') \<Rightarrow>
                             (case skip_ws r'' of
                                [] \<Rightarrow> None
                              | c' # r''' \<Rightarrow>
                                  if c' = 44 then parse_members n r''' (acc @ [(k, v)])
                                  else if c' = 125 then Some (JObject (acc @ [(k, v)]), r''')
                                  else None))
                      else None))
          else None)"

definition JSON_parse :: "jsstring \<Rightarrow> json option" where
  "JSON_parse s =
     (case parse_value (2 * length s + 1) s of
        None \<Rightarrow> None
      | Some (v, r) \<Rightarrow> if skip_ws r = [] then Some v else None)"

section \<open>Data model\<close>

text \<open>
  The parts of a request and of a response (\<^verbatim>\<open>Part\<close>, \<^verbatim>\<open>Blob\<close>, \<^verbatim>\<open>Content\<close>,
  \<^verbatim>\<open>Candidate\<close>, \<^verbatim>\<open>GenerateContentResponse\<close> of the client library). Every field
  of these is optional in the library's types; \<open>None\<close> is \<^verbatim>\<open>undefined\<close>.
\<close>

datatype inline_data = InlineData (mimeType: "jsstring option") (data: "jsstring option")

datatype part = Part (inlineData: "inline_data option") (text_of: "jsstring option")

datatype safety_rating = SafetyRating (blocked: "bool option")

datatype content = Content (parts: "part list option")

datatype candidate =
  Candidate (content: "content option") (finishReason: "jsstring option")
    (safetyRatings: "safety_rating list option")

datatype response = Response (candidates: "candidate list option")

text \<open>The object literals \<^verbatim>\<open>{ inlineData: { mimeType, data } }\<close> and \<^verbatim>\<open>{ text }\<close>.\<close>

definition image_part :: "jsstring \<Rightarrow> jsstring option \<Rightarrow> part" where
  "image_part m d = Part (Some (InlineData (Some m) d)) None"

definition text_part :: "jsstring \<Rightarrow> part" where
  "text_part t = Part None (Some t)"

text \<open>
  A thrown value: an instance of \<^verbatim>\<open>Error\<close> with its message, or another object, whose
  \<^verbatim>\<open>message\<close> property may be missing (the event a \<^verbatim>\<open>FileReader\<close> rejects with).
\<close>

datatype thrown = Error jsstring | NonError "jsstring option"

fun message :: "thrown \<Rightarrow> jsstring option" where
  "message (Error m) = Some m"
| "message (NonError m) = m"

fun instanceof_Error :: "thrown \<Rightarrow> bool" where
  "instanceof_Error (Error m) = True"
| "instanceof_Error (NonError m) = False"

text \<open>
  What one attempt meets: \<^verbatim>\<open>getGoogleAI()\<close> throws (no request leaves), the call of
  \<^verbatim>\<open>generateContent\<close> rejects, or it returns a response.
\<close>

datatype reply = NoClient jsstring | Rejects thrown | Responds response

text \<open>
  Files, images and canvases of the browser. The bytes of a blob are either those the
  user supplied or what \<^verbatim>\<open>canvas.toBlob\<close> encoded from a canvas, which is kept with its
  size and the arguments of the call.
\<close>

record canvas =
  canvas_width :: nat
  canvas_height :: nat
  drawn :: "(jsstring \<times> nat \<times> nat \<times> nat \<times> nat) option"

datatype blob = Bytes "nat list" | CanvasBlob canvas jsstring real

record File =
  file_name :: jsstring
  file_type :: jsstring
  file_content :: blob

text \<open>
  The host: everything the module calls and does not define. \<open>generateContent h n ps\<close>
  is what the \<open>n\<close>-th attempt of an operation meets when it sends \<open>ps\<close>;
  \<open>readAsDataURL\<close> is the \<^verbatim>\<open>FileReader\<close> (\<open>None\<close>: its error event);
  \<open>loadImage\<close> decodes a data URL (\<open>Inl\<close>: the error event, as it prints; \<open>Inr\<close>:
  natural width and height); \<open>getContext2d\<close> and \<open>toBlob\<close> tell whether the canvas
  gives a context and a blob.

  A read that loads has a string for its result: that is what \<^verbatim>\<open>readAsDataURL\<close> is.
  So the rejection \<^verbatim>\<open>Failed to read file for processing.\<close>, which the source keeps
  for a result of another type, has no input here, and the cast of the result to a
  string in \<open>fileToGenerativePart\<close> is right. A thrown value is an object: the source
  reads its \<^verbatim>\<open>message\<close> without a test.
\<close>

record host =
  number_truthy :: "jsstring \<Rightarrow> bool"
  number_toString :: "jsstring \<Rightarrow> jsstring"
  generateContent :: "nat \<Rightarrow> part list \<Rightarrow> reply"
  readAsDataURL :: "File \<Rightarrow> jsstring option"
  loadImage :: "jsstring \<Rightarrow> jsstring + nat \<times> nat"
  getContext2d :: "File \<Rightarrow> bool"
  toBlob :: "canvas \<Rightarrow> bool"

section \<open>handleApiError\<close>

text \<open>
  The classifier (lines 71 to 92): the message is first the action and the raw message;
  when the raw message parses as JSON and has a truthy \<^verbatim>\<open>error.message\<close>, that
  replaces the raw message; when it does not parse, two substrings of the raw message
  replace the whole by a fixed text.
\<close>

text \<open>Property access \<^verbatim>\<open>v.key\<close> on a parsed value, for the keys \<^verbatim>\<open>error\<close> and
  \<^verbatim>\<open>message\<close>, which only an object can have: the last member of that name.\<close>

fun get_property :: "json \<Rightarrow> jsstring \<Rightarrow> json option" where
  "get_property (JObject members) key = map_of (rev members) key"
| "get_property v key = None"

text \<open>\<^verbatim>\<open>errorObj?.error?.message\<close>: \<^verbatim>\<open>null\<close> and \<^verbatim>\<open>undefined\<close> end the chain.\<close>

definition nested_message :: "json \<Rightarrow> json option" where
  "nested_message errorObj =
     (case get_property errorObj (js ''error'') of
        None \<Rightarrow> None
      | Some e \<Rightarrow> (if e = JNull then None else get_property e (js ''message'')))"

fun truthy :: "host \<Rightarrow> json \<Rightarrow> bool" where
  "truthy h JNull = False"
| "truthy h (JBool b) = b"
| "truthy h (JNumber n) = number_truthy h n"
| "truthy h (JString s) = (s \<noteq> [])"
| "truthy h (JArray xs) = True"
| "truthy h (JObject ms) = True"

fun json_toString :: "host \<Rightarrow> json \<Rightarrow> jsstring" where
  "json_toString h JNull = js ''null''"
| "json_toString h (JBool b) = (if b then js ''true'' else js ''false'')"
| "json_toString h (JNumber n) = number_toString h n"
| "json_toString h (JString s) = s"
| "json_toString h (JArray xs) =
     join (js '','') (map (\<lambda>x. if x = JNull then [] else json_toString h x) xs)"
| "json_toString h (JObject ms) = js ''[object Object]''"

text \<open>\<^verbatim>\<open>String(error.message)\<close>, also what \<^verbatim>\<open>JSON.parse\<close> makes of its argument.\<close>

definition message_string :: "thrown \<Rightarrow> jsstring" where
  "message_string error = (case message error of None \<Rightarrow> js ''undefined'' | Some m \<Rightarrow> m)"

definition during :: "jsstring \<Rightarrow> jsstring" where
  \<open>during action = js ''Error occurred during "'' @ action @ js ''": ''\<close>

definition handleApiError :: "host \<Rightarrow> thrown \<Rightarrow> jsstring \<Rightarrow> thrown" where
  "handleApiError h error action =
     (let message0 =
            during action @
              (case message error of
                 None \<Rightarrow> js ''Unknown communication error''
               | Some m \<Rightarrow> if m = [] then js ''Unknown communication error'' else m)
      in Error
          (case JSON_parse (message_string error) of
             Some errorObj \<Rightarrow>
               (case nested_message errorObj of
                  None \<Rightarrow> message0
                | Some v \<Rightarrow> if truthy h v then during action @ json_toString h v else message0)
           | None \<Rightarrow>
               if str_includes (message_string error) (js ''API key not valid'')
               then js ''API key is invalid. Please check the key you entered in settings.''
               else if str_includes (message_string error) (js ''xhr error'')
               then js ''Communication with AI service failed. This may be caused by network issues or an invalid API key.''
               else message0))"

section \<open>resizeImageForApi and fileToGenerativePart\<close>

definition SUPPORTED_MIME_TYPES :: "jsstring list" where
  "SUPPORTED_MIME_TYPES = [js ''image/jpeg'', js ''image/png'']"

definition MAX_DIMENSION :: nat where
  "MAX_DIMENSION = 2048"

text \<open>
  \<^verbatim>\<open>Math.round\<close>: the nearest integer, a tie going up. The source rounds the double
  nearest to the quotient; the model rounds the quotient itself. For the operands the
  source has (a product below \<open>2^53\<close>, a quotient of at most 2048, a divisor below
  \<open>2^32\<close>) the two agree: the quotient is a tie or at least \<open>1 / (2 * divisor)\<close> away
  from one, further than the double is from the quotient.
\<close>

definition Math_round :: "real \<Rightarrow> nat" where
  "Math_round x = nat \<lfloor>x + 1 / 2\<rfloor>"

text \<open>\<^verbatim>\<open>(file.name.split('.').slice(0, -1).join('.') || 'image') + '.png'\<close>\<close>

definition newFileName :: "jsstring \<Rightarrow> jsstring" where
  "newFileName name =
     (let base = join (js ''.'') (butlast (split_on 46 name))
      in (if base = [] then js ''image'' else base) @ js ''.png'')"

text \<open>The size of the canvas: \<^verbatim>\<open>newWidth\<close> and \<^verbatim>\<open>newHeight\<close>.\<close>

definition new_dimensions :: "nat \<Rightarrow> nat \<Rightarrow> nat \<times> nat" where
  "new_dimensions width height =
     (let needsResize = (width > MAX_DIMENSION \<or> height > MAX_DIMENSION)
      in if needsResize then
           (if width > height
            then (MAX_DIMENSION, Math_round (real (height * MAX_DIMENSION) / real width))
            else (Math_round (real (width * MAX_DIMENSION) / real height), MAX_DIMENSION))
         else (width, height))"

text \<open>The canvas after \<^verbatim>\<open>ctx.drawImage(image, 0, 0, newWidth, newHeight)\<close>.\<close>

definition draw_canvas :: "jsstring \<Rightarrow> nat \<times> nat \<Rightarrow> canvas" where
  "draw_canvas src dims =
     \<lparr>canvas_width = fst dims, canvas_height = snd dims,
      drawn = Some (src, 0, 0, fst dims, snd dims)\<rparr>"

definition resizeImageForApi :: "host \<Rightarrow> File \<Rightarrow> thrown + File \<times> jsstring" where
  "resizeImageForApi h file =
     (let needsConversion = (file_type file \<notin> set SUPPORTED_MIME_TYPES)
      in case readAsDataURL h file of
           None \<Rightarrow> Inl (Error (js ''Failed to read file.''))
         | Some src \<Rightarrow>
             (case loadImage h src of
                Inl err \<Rightarrow> Inl (Error (js ''Failed to load image for processing: '' @ err))
              | Inr (width, height) \<Rightarrow>
                  (let needsResize = (width > MAX_DIMENSION \<or> height > MAX_DIMENSION)
                   in if \<not> needsResize \<and> \<not> needsConversion then Inr (file, file_type file)
                      else if \<not> getContext2d h file
                      then Inl (Error (js ''Could not create canvas context.''))
                      else
                        (let cv = draw_canvas src (new_dimensions width height)
                         in if \<not> toBlob h cv
                            then Inl (Error (js ''Failed to create blob from canvas.''))
                            else
                              Inr (\<lparr>file_name = newFileName (file_name file),
                                     file_type = js ''image/png'',
                                     file_content = CanvasBlob cv (js ''image/png'') (95 / 100)\<rparr>,
                                   js ''image/png'')))))"

text \<open>\<^verbatim>\<open>xs[i]\<close>, \<^verbatim>\<open>undefined\<close> out of range.\<close>

definition at_index :: "'a list \<Rightarrow> nat \<Rightarrow> 'a option" where
  "at_index xs i = (if i < length xs then Some (xs ! i) else None)"

definition fileToGenerativePart :: "host \<Rightarrow> File \<Rightarrow> thrown + part" where
  "fileToGenerativePart h file =
     (case resizeImageForApi h file of
        Inl e \<Rightarrow> Inl e
      | Inr (processedFile, mime) \<Rightarrow>
          (case readAsDataURL h processedFile of
             None \<Rightarrow> Inl (NonError None)
           | Some url \<Rightarrow> Inr (image_part mime (at_index (split_on 44 url) 1))))"

section \<open>callImageEditingModel\<close>

definition or_undefined :: "jsstring option \<Rightarrow> jsstring" where
  "or_undefined v = (case v of None \<Rightarrow> js ''undefined'' | Some str \<Rightarrow> str)"

definition or_null :: "jsstring option \<Rightarrow> jsstring" where
  "or_null v = (case v of None \<Rightarrow> js ''null'' | Some str \<Rightarrow> str)"

definition refusal_message :: jsstring where
  "refusal_message =
     js ''Model responded with text instead of an image. The prompt may have been blocked.''"

definition no_image_message :: jsstring where
  "no_image_message =
     [65, 73, 32, 26410, 33021, 36820, 22238, 39044, 26399, 30340, 22270, 29255, 32467,
      26524, 12290]"

text \<open>The loop over the parts of a candidate: the first \<^verbatim>\<open>inlineData\<close> there is.\<close>

fun first_inline :: "part list \<Rightarrow> inline_data option" where
  "first_inline [] = None"
| "first_inline (p # ps) = (case inlineData p of Some d \<Rightarrow> Some d | None \<Rightarrow> first_inline ps)"

text \<open>\<^verbatim>\<open>response.candidates?.[0]\<close>, and the parts of a candidate: none when the
  candidate, its content or the parts of its content are missing.\<close>

definition first_candidate :: "response \<Rightarrow> candidate option" where
  "first_candidate resp = (case candidates resp of None \<Rightarrow> None | Some cs \<Rightarrow> at_index cs 0)"

definition candidate_parts :: "candidate option \<Rightarrow> part list" where
  "candidate_parts candidate =
     (case candidate of
        None \<Rightarrow> []
      | Some c \<Rightarrow>
          (case content c of
             None \<Rightarrow> []
           | Some ct \<Rightarrow> (case parts ct of None \<Rightarrow> [] | Some ps \<Rightarrow> ps)))"

text \<open>The text added to \<^verbatim>\<open>AI did not return a valid result.\<close>\<close>

definition detail_of :: "candidate option \<Rightarrow> jsstring" where
  "detail_of candidate =
     (let finishReason = (case candidate of None \<Rightarrow> None | Some c \<Rightarrow> finishReason c);
          safetyRatings = (case candidate of None \<Rightarrow> None | Some c \<Rightarrow> safetyRatings c)
      in (case finishReason of
            None \<Rightarrow> []
          | Some r \<Rightarrow> if r = [] then [] else js '' Reason: '' @ r @ js ''.'') @
         (case safetyRatings of
            None \<Rightarrow> []
          | Some rs \<Rightarrow>
              if list_ex (\<lambda>r. blocked r = Some True) rs
              then js '' The prompt may have been blocked by safety filters.''
              else []))"

definition data_url :: "inline_data \<Rightarrow> jsstring" where
  "data_url d = js ''data:'' @ or_undefined (mimeType d) @ js '';base64,'' @ or_undefined (data d)"

text \<open>What the body of the \<^verbatim>\<open>try\<close> makes of a response: the data URL it returns or
  the error it throws.\<close>

definition interpretResponse :: "response \<Rightarrow> thrown + jsstring" where
  "interpretResponse resp =
     (let candidate = first_candidate resp;
          ps = candidate_parts candidate
      in if ps = [] then
           Inl (Error (js ''AI did not return a valid result.'' @ detail_of candidate))
         else
           (case first_inline ps of
              Some d \<Rightarrow> Inr (data_url d)
            | None \<Rightarrow>
                (case text_of (hd ps) of
                   Some t \<Rightarrow>
                     if t \<noteq> [] then Inl (Error refusal_message)
                     else Inl (Error no_image_message)
                 | None \<Rightarrow> Inl (Error no_image_message))))"

text \<open>The \<^verbatim>\<open>catch\<close> of \<open>callImageEditingModel\<close>.\<close>

definition catch_call :: "host \<Rightarrow> thrown \<Rightarrow> jsstring \<Rightarrow> thrown" where
  "catch_call h e action =
     (if instanceof_Error e \<and>
         (str_includes (message_string e) (js ''Model responded with text'') \<or>
          str_includes (message_string e) (js ''AI did not return a valid result''))
      then e
      else handleApiError h e action)"

text \<open>The attempts an operation has made and the requests that reached the service.\<close>

record calls =
  attempts :: nat
  sent :: "part list list"

definition no_calls :: calls where
  "no_calls = \<lparr>attempts = 0, sent = []\<rparr>"

definition callImageEditingModel ::
  "host \<Rightarrow> part list \<Rightarrow> jsstring \<Rightarrow> calls \<Rightarrow> (thrown + jsstring) \<times> calls" where
  "callImageEditingModel h ps action st =
     (case generateContent h (attempts st) ps of
        NoClient m \<Rightarrow>
          (Inl (catch_call h (Error m) action), st\<lparr>attempts := Suc (attempts st)\<rparr>)
      | Rejects e \<Rightarrow>
          (Inl (catch_call h e action),
           st\<lparr>attempts := Suc (attempts st), sent := sent st @ [ps]\<rparr>)
      | Responds resp \<Rightarrow>
          ((case interpretResponse resp of
              Inl e \<Rightarrow> Inl (catch_call h e action)
            | Inr url \<Rightarrow> Inr url),
           st\<lparr>attempts := Suc (attempts st), sent := sent st @ [ps]\<rparr>))"

section \<open>The operations\<close>

definition is_refusal :: "thrown \<Rightarrow> bool" where
  "is_refusal error =
     (instanceof_Error error \<and>
      str_includes (message_string error) (js ''Model responded with text instead of an image''))"

text \<open>The two coordinates of the hotspot are numbers; they come as the template literal
  prints them.\<close>

definition generateEditedImage ::
  "host \<Rightarrow> File \<Rightarrow> jsstring \<Rightarrow> jsstring \<times> jsstring \<Rightarrow> (thrown + jsstring) \<times> calls" where
  "generateEditedImage h imageFile prompt hotspot =
     (case fileToGenerativePart h imageFile of
        Inl e \<Rightarrow> (Inl e, no_calls)
      | Inr imagePart \<Rightarrow>
          (let textPart =
                 text_part (js ''Apply this edit at hotspot ('' @ fst hotspot @ js '', '' @
                            snd hotspot @ js ''): '' @ prompt)
           in callImageEditingModel h [imagePart, textPart] (js ''retouch'') no_calls))"

text \<open>
  \<open>generateFilteredImage\<close>, \<open>generateStyledImage\<close>, \<open>generateAdjustedImage\<close> and
  \<open>generateTexturedImage\<close> are one function body with two strings changed: the prefix
  of the primary prompt and the action label.
\<close>

definition generateWithFallback ::
  "jsstring \<Rightarrow> jsstring \<Rightarrow> host \<Rightarrow> File \<Rightarrow> jsstring \<Rightarrow> (thrown + jsstring) \<times> calls" where
  "generateWithFallback pre action h imageFile prompt =
     (case fileToGenerativePart h imageFile of
        Inl e \<Rightarrow> (Inl e, no_calls)
      | Inr imagePart \<Rightarrow>
          (let primaryTextPart = text_part (pre @ prompt)
           in case callImageEditingModel h [imagePart, primaryTextPart] action no_calls of
                (Inr url, st) \<Rightarrow> (Inr url, st)
              | (Inl error, st) \<Rightarrow>
                  if is_refusal error then
                    (let fallbackTextPart = text_part prompt
                     in callImageEditingModel h [imagePart, fallbackTextPart]
                          (action @ js '' (fallback)'') st)
                  else (Inl error, st)))"

definition generateFilteredImage ::
  "host \<Rightarrow> File \<Rightarrow> jsstring \<Rightarrow> (thrown + jsstring) \<times> calls" where
  "generateFilteredImage = generateWithFallback (js ''Apply this filter: '') (js ''filter'')"

definition generateStyledImage ::
  "host \<Rightarrow> File \<Rightarrow> jsstring \<Rightarrow> (thrown + jsstring) \<times> calls" where
  "generateStyledImage =
     generateWithFallback (js ''Apply this artistic style: '') (js ''apply style'')"

definition generateAdjustedImage ::
  "host \<Rightarrow> File \<Rightarrow> jsstring \<Rightarrow> (thrown + jsstring) \<times> calls" where
  "generateAdjustedImage =
     generateWithFallback (js ''Apply this adjustment: '') (js ''adjustment'')"

definition generateTexturedImage ::
  "host \<Rightarrow> File \<Rightarrow> jsstring \<Rightarrow> (thrown + jsstring) \<times> calls" where
  "generateTexturedImage = generateWithFallback (js ''Apply this texture: '') (js ''texture'')"

definition removeBackgroundImage :: "host \<Rightarrow> File \<Rightarrow> (thrown + jsstring) \<times> calls" where
  "removeBackgroundImage h imageFile =
     (case fileToGenerativePart h imageFile of
        Inl e \<Rightarrow> (Inl e, no_calls)
      | Inr imagePart \<Rightarrow>
          (let textPart =
                 text_part (js ''Remove the background of this image, leaving only the main subject with a transparent background.'')
           in callImageEditingModel h [imagePart, textPart] (js ''background removal'') no_calls))"

subsection \<open>Fusion\<close>

text \<open>
  \<^verbatim>\<open>Promise.all\<close>: each promise, when it settles, either rejects the whole or stores its
  value in the slot of its own index; when all have settled the slots are the result.
  The promises settle in the order of the times \<open>t\<close> gives them.
\<close>

fun settle :: "nat list \<Rightarrow> (thrown + 'a) list \<Rightarrow> 'a option list \<Rightarrow> thrown + 'a option list" where
  "settle [] tasks slots = Inr slots"
| "settle (i # order) tasks slots =
     (case tasks ! i of
        Inl e \<Rightarrow> Inl e
      | Inr v \<Rightarrow> settle order tasks (slots[i := Some v]))"

definition Promise_all :: "(nat \<Rightarrow> nat) \<Rightarrow> (thrown + 'a) list \<Rightarrow> thrown + 'a list" where
  "Promise_all t tasks =
     (case settle (sort_key t [0..<length tasks]) tasks (replicate (length tasks) None) of
        Inl e \<Rightarrow> Inl e
      | Inr slots \<Rightarrow> Inr (map the slots))"

text \<open>\<^verbatim>\<open>fileToGenerativePart(file).then(part => ({ ...part, index: index + 1 }))\<close>\<close>

definition indexed_part :: "host \<Rightarrow> File \<times> nat \<Rightarrow> thrown + part \<times> nat" where
  "indexed_part h fi =
     (case fileToGenerativePart h (fst fi) of
        Inl e \<Rightarrow> Inl e
      | Inr p \<Rightarrow> Inr (p, snd fi + 1))"

definition fusion_prompt :: "(part \<times> nat) list \<Rightarrow> jsstring \<Rightarrow> jsstring" where
  "fusion_prompt sourceImageParts prompt =
     js ''Fuse the images. The main image is the one I'm editing. '' @
     concat (map (\<lambda>p. js ''Source image '' @ decimal (snd p) @ js '' is provided. '')
               sourceImageParts) @
     js ''Instructions: '' @ prompt"

definition generateFusedImage ::
  "host \<Rightarrow> (nat \<Rightarrow> nat) \<Rightarrow> File \<Rightarrow> File list \<Rightarrow> jsstring \<Rightarrow> (thrown + jsstring) \<times> calls" where
  "generateFusedImage h t mainImage sourceImages prompt =
     (case fileToGenerativePart h mainImage of
        Inl e \<Rightarrow> (Inl (handleApiError h e (js ''fusion'')), no_calls)
      | Inr mainImagePart \<Rightarrow>
          (case Promise_all t
                  (map (indexed_part h) (zip sourceImages [0..<length sourceImages])) of
             Inl e \<Rightarrow> (Inl (handleApiError h e (js ''fusion'')), no_calls)
           | Inr sourceImageParts \<Rightarrow>
               (let textPart = text_part (fusion_prompt sourceImageParts prompt);
                    allParts =
                      [mainImagePart] @
                      map (\<lambda>p. Part (inlineData (fst p)) None) sourceImageParts @
                      [textPart]
                in case callImageEditingModel h allParts [21512, 25104] no_calls of
                     (Inr url, st) \<Rightarrow> (Inr url, st)
                   | (Inl e, st) \<Rightarrow> (Inl (handleApiError h e (js ''fusion'')), st))))"

subsection \<open>Decade transform\<close>

definition getFallbackPrompt :: "jsstring \<Rightarrow> jsstring" where
  "getFallbackPrompt decade =
     js ''Create a photograph of the person in this image as if they were living in the '' @
     decade @
     js ''. The photograph should capture the distinct fashion, hairstyles, and overall atmosphere of that time period. Ensure the final image is a clear photograph that looks authentic to the era.''"

text \<open>\<^verbatim>\<open>/(\d{4}s)/\<close> at the start of a string.\<close>

definition decade_here :: "jsstring \<Rightarrow> bool" where
  "decade_here s =
     (case s of
        a # b # c # d # e # rest \<Rightarrow>
          is_digit a \<and> is_digit b \<and> is_digit c \<and> is_digit d \<and> e = 115
      | _ \<Rightarrow> False)"

text \<open>\<^verbatim>\<open>prompt.match(/(\d{4}s)/)\<close>: the leftmost place where the pattern matches, and
  there the five code units of the group; \<open>None\<close> is \<^verbatim>\<open>null\<close>.\<close>

fun extractDecade :: "jsstring \<Rightarrow> jsstring option" where
  "extractDecade [] = None"
| "extractDecade (c # cs) =
     (if decade_here (c # cs) then Some (take 5 (c # cs)) else extractDecade cs)"

text \<open>
  \<^verbatim>\<open>imageDataUrl.match(/^data:(image\/\w+);base64,(.*)$/)\<close>: the two groups. \<^verbatim>\<open>\w+\<close>
  has to take every word character up to the \<^verbatim>\<open>;\<close>, and \<^verbatim>\<open>.*\<close> has to reach the end
  of the string, which it does when no line terminator is in the way.
\<close>

definition match_data_url :: "jsstring \<Rightarrow> (jsstring \<times> jsstring) option" where
  "match_data_url s =
     (if prefix (js ''data:image/'') s then
        (let rest = drop 11 s;
             w = takeWhile is_word rest;
             after = dropWhile is_word rest
         in if w \<noteq> [] \<and> prefix (js '';base64,'') after \<and>
               \<not> list_ex is_line_terminator (drop 8 after)
            then Some (js ''image/'' @ w, drop 8 after)
            else None)
      else None)"

definition generateDecadeImage ::
  "host \<Rightarrow> jsstring \<Rightarrow> jsstring \<Rightarrow> (thrown + jsstring) \<times> calls" where
  "generateDecadeImage h imageDataUrl prompt =
     (case match_data_url imageDataUrl of
        None \<Rightarrow> (Inl (Error (js ''Invalid image data URL format.'')), no_calls)
      | Some (mime, base64Data) \<Rightarrow>
          (let imagePart = image_part mime (Some base64Data);
               textPart = text_part prompt
           in case callImageEditingModel h [imagePart, textPart]
                     (js ''generate '' @ or_null (extractDecade prompt) @ js '' image'')
                     no_calls of
                (Inr url, st) \<Rightarrow> (Inr url, st)
              | (Inl error, st) \<Rightarrow>
                  if is_refusal error then
                    (case extractDecade prompt of
                       None \<Rightarrow> (Inl error, st)
                     | Some decade \<Rightarrow>
                         (let fallbackPrompt = getFallbackPrompt decade;
                              fallbackTextPart = text_part fallbackPrompt
                          in callImageEditingModel h [imagePart, fallbackTextPart]
                               (js ''generate '' @ decade @ js '' image (fallback)'') st))
                  else (Inl error, st)))"

section \<open>Refusals\<close>

text \<open>
  A response that is a refusal: it has parts, none of them with inline data, and the
  first with a text that is not empty. It is the case in which \<open>interpretResponse\<close>
  throws the error \<open>refusal_message\<close>.
\<close>

definition text_only :: "response \<Rightarrow> bool" where
  "text_only resp =
     (case candidate_parts (first_candidate resp) of
        [] \<Rightarrow> False
      | p # ps \<Rightarrow>
          first_inline (p # ps) = None \<and>
          (case text_of p of None \<Rightarrow> False | Some t \<Rightarrow> t \<noteq> []))"

text \<open>The first attempt of an operation, sending \<open>ps\<close>, failed with an error that the
  operation's \<^verbatim>\<open>catch\<close> takes for a refusal.\<close>

definition first_attempt_refused :: "host \<Rightarrow> part list \<Rightarrow> jsstring \<Rightarrow> bool" where
  "first_attempt_refused h ps action =
     (case fst (callImageEditingModel h ps action no_calls) of
        Inl e \<Rightarrow> is_refusal e
      | Inr url \<Rightarrow> False)"

section \<open>Example inputs\<close>

text \<open>A host where nothing succeeds: no file can be read, no client can be made.\<close>

definition quiet_host :: host where
  "quiet_host =
     \<lparr>number_truthy = (\<lambda>n. True),
      number_toString = (\<lambda>n. n),
      generateContent = (\<lambda>n ps. NoClient (js ''API key not found.'')),
      readAsDataURL = (\<lambda>f. None),
      loadImage = (\<lambda>src. Inl (js ''[object Event]'')),
      getContext2d = (\<lambda>f. False),
      toBlob = (\<lambda>cv. False)\<rparr>"

text \<open>A host whose browser side works: a file reads as a data URL of its type, every
  image decodes to the given width and height, the canvas gives a context and a blob.\<close>

definition photo_host :: "nat \<Rightarrow> nat \<Rightarrow> host" where
  "photo_host w ht =
     quiet_host
       \<lparr>readAsDataURL := (\<lambda>f. Some (js ''data:'' @ file_type f @ js '';base64,AAAA'')),
        loadImage := (\<lambda>src. Inr (w, ht)),
        getContext2d := (\<lambda>f. True),
        toBlob := (\<lambda>cv. True)\<rparr>"

definition jpeg_file :: File where
  "jpeg_file =
     \<lparr>file_name = js ''photo.jpg'', file_type = js ''image/jpeg'',
      file_content = Bytes [255, 216, 255]\<rparr>"

definition webp_file :: File where
  "webp_file =
     \<lparr>file_name = js ''photo.webp'', file_type = js ''image/webp'',
      file_content = Bytes [82, 73, 70, 70]\<rparr>"

text \<open>Responses: one without a candidate, one that is stopped for safety, one with a text
  and an image, one with a text only.\<close>

definition empty_response :: response where
  "empty_response = Response None"

definition blocked_response :: response where
  "blocked_response =
     Response (Some [Candidate None (Some (js ''SAFETY'')) (Some [SafetyRating (Some True)])])"

definition image_response :: response where
  "image_response =
     Response (Some [Candidate
       (Some (Content (Some
          [Part None (Some (js ''Here it is'')),
           Part (Some (InlineData (Some (js ''image/png'')) (Some (js ''iVBOR'')))) None,
           Part (Some (InlineData (Some (js ''image/jpeg'')) (Some (js ''9j4AAQ'')))) None])))
       None None])"

definition text_response :: response where
  "text_response =
     Response (Some [Candidate
       (Some (Content (Some [Part None (Some (js ''I cannot do that''))]))) None None])"

text \<open>A service that answers the first attempt with a text only and the second with an
  image; and one whose first call is rejected with an error that quotes the text of a
  refusal.\<close>

definition refusing_host :: host where
  "refusing_host =
     photo_host 800 600
       \<lparr>generateContent :=
          (\<lambda>n ps. if n = 0 then Responds text_response else Responds image_response)\<rparr>"

definition rejecting_host :: host where
  "rejecting_host =
     photo_host 800 600
       \<lparr>generateContent :=
          (\<lambda>n ps. if n = 0
                  then Rejects (Error (js ''Model responded with text instead of an image''))
                  else Responds image_response)\<rparr>"

text \<open>A service that answers every attempt with an image.\<close>

definition answering_host :: host where
  "answering_host = photo_host 800 600 \<lparr>generateContent := (\<lambda>n ps. Responds image_response)\<rparr>"


section \<open>The bound of the parser\<close>

text \<open>
  Every call of the parser that returns has consumed input, so the bound \<open>JSON_parse\<close>
  starts with is never the reason for \<open>None\<close>: with any larger bound the result is the
  same.
\<close>

lemma skip_ws_length: "length (skip_ws s) \<le> length s"
  by (simp add: skip_ws_def length_dropWhile_le)

lemma cons_unit_Some:
  "cons_unit c res = Some (s, r) \<longleftrightarrow> (\<exists>s'. res = Some (s', r) \<and> s = c # s')"
  by (auto simp add: cons_unit_def split: option.splits)

lemma lex_chars_shorter: "lex_chars s = Some (str, r) \<Longrightarrow> length r < length s"
proof (induction "length s" arbitrary: s str rule: less_induct)
  case less
  show ?case
  proof (cases s)
    case Nil
    then show ?thesis using less.prems by simp
  next
    case (Cons c cs)
    have IH: "length r < length s'" if "length s' < length s" "lex_chars s' = Some (str', r)"
      for s' str'
      using less.hyps that by blast
    show ?thesis
      using less.prems unfolding Cons
      by (auto simp add: cons_unit_Some split: if_splits list.splits option.splits
          dest!: IH [rotated] simp add: Cons)
  qed
qed

lemma lex_int_shorter: "lex_int s = Some (i, r) \<Longrightarrow> length r < length s"
  by (auto simp add: lex_int_def less_Suc_eq_le length_dropWhile_le split: list.splits if_splits)

lemma lex_digits1_shorter:
  "length s \<le> length whole \<Longrightarrow> lex_digits1 pre s whole = (e, r) \<Longrightarrow> length r \<le> length whole"
  by (auto simp add: lex_digits1_def split: list.splits if_splits
      intro: order_trans [OF length_dropWhile_le])

lemma lex_frac_shorter: "lex_frac s = (f, r) \<Longrightarrow> length r \<le> length s"
  by (auto simp add: lex_frac_def split: list.splits if_splits
      intro: order_trans [OF length_dropWhile_le])

lemma lex_exp_shorter: "lex_exp s = (e, r) \<Longrightarrow> length r \<le> length s"
  by (auto simp add: lex_exp_def split: list.splits if_splits dest!: lex_digits1_shorter [rotated])

lemma lex_number_shorter: "lex_number s = Some (n, r) \<Longrightarrow> length r < length s"
proof -
  assume a: "lex_number s = Some (n, r)"
  obtain sg s1 where sg: "(case s of c # cs \<Rightarrow> if c = 45 then ([c], cs) else ([], s) | [] \<Rightarrow> ([], s)) = (sg, s1)"
    by (cases "(case s of c # cs \<Rightarrow> if c = 45 then ([c], cs) else ([], s) | [] \<Rightarrow> ([], s))")
  then have s1: "length s1 \<le> length s"
    by (auto split: list.splits if_splits)
  from a sg obtain i s2 where i: "lex_int s1 = Some (i, s2)"
    by (auto simp add: lex_number_def split: option.splits)
  obtain f s3 where f: "lex_frac s2 = (f, s3)"
    by (cases "lex_frac s2")
  obtain e s4 where e: "lex_exp s3 = (e, s4)"
    by (cases "lex_exp s3")
  have "r = s4"
    using a sg i f e by (simp add: lex_number_def)
  then show ?thesis
    using s1 lex_int_shorter [OF i] lex_frac_shorter [OF f] lex_exp_shorter [OF e] by simp
qed

lemma lex_literal_shorter: "lex_literal s = Some (v, r) \<Longrightarrow> length r < length s"
  by (auto simp add: lex_literal_def prefix_def js_def split: if_splits)

lemma skip_ws_Cons: "skip_ws s = c # cs \<Longrightarrow> length cs < length s"
  using skip_ws_length [of s] by simp

lemma parse_shorter:
  "(\<forall>s v r. parse_value n s = Some (v, r) \<longrightarrow> length r < length s) \<and>
   (\<forall>s acc v r. parse_elements n s acc = Some (v, r) \<longrightarrow> length r < length s) \<and>
   (\<forall>s acc v r. parse_members n s acc = Some (v, r) \<longrightarrow> length r < length s)"
proof (induction n)
  case 0
  then show ?case by simp
next
  case (Suc n)
  then have pv: "parse_value n s = Some (v, r) \<Longrightarrow> length r < length s"
    and pe: "parse_elements n s acc = Some (v, r) \<Longrightarrow> length r < length s"
    and pm: "parse_members n s ms = Some (v, r) \<Longrightarrow> length r < length s"
    for s acc ms v r
    by blast+
  have "length r < length s" if "parse_value (Suc n) s = Some (v, r)" for s v r
    using that
    by (auto split: list.splits if_splits option.splits
        dest!: skip_ws_Cons lex_chars_shorter lex_number_shorter lex_literal_shorter
          pe pm)
  moreover have "length r < length s" if "parse_elements (Suc n) s acc = Some (v, r)" for s acc v r
    using that
    by (auto split: list.splits if_splits option.splits
        dest!: skip_ws_Cons pv pe)
  moreover have "length r < length s" if "parse_members (Suc n) s acc = Some (v, r)" for s acc v r
    using that
    by (auto split: list.splits if_splits option.splits
        dest!: skip_ws_Cons lex_chars_shorter pv pm)
  ultimately show ?case
    by blast
qed

lemma parse_value_shorter: "parse_value n s = Some (v, r) \<Longrightarrow> length r < length s"
  using parse_shorter [of n] by blast

lemma parse_fuel:
  "(\<forall>s. 2 * length s \<le> n \<longrightarrow> parse_value (Suc n) s = parse_value n s) \<and>
   (\<forall>s acc. 2 * length s + 1 \<le> n \<longrightarrow> parse_elements (Suc n) s acc = parse_elements n s acc) \<and>
   (\<forall>s acc. 2 * length s + 1 \<le> n \<longrightarrow> parse_members (Suc n) s acc = parse_members n s acc)"
proof (induction n)
  case 0
  then show ?case by (simp add: skip_ws_def)
next
  case (Suc n)
  then have pv: "2 * length s \<le> n \<Longrightarrow> parse_value (Suc n) s = parse_value n s"
    and pe: "2 * length s + 1 \<le> n \<Longrightarrow> parse_elements (Suc n) s acc = parse_elements n s acc"
    and pm: "2 * length s + 1 \<le> n \<Longrightarrow> parse_members (Suc n) s ms = parse_members n s ms"
    for s acc ms
    by blast+
  have "parse_value (Suc (Suc n)) s = parse_value (Suc n) s" if fuel: "2 * length s \<le> Suc n" for s
  proof (cases "skip_ws s")
    case Nil
    then show ?thesis
      unfolding parse_value.simps(2) [of "Suc n" s]
        parse_value.simps(2) [of n s]
      by (simp del: parse_value.simps)
  next
    case (Cons c cs)
    then have "2 * length cs + 1 \<le> n"
      using skip_ws_Cons [OF Cons] fuel by simp
    then have "parse_elements (Suc n) cs [] = parse_elements n cs []"
      and "parse_members (Suc n) cs [] = parse_members n cs []"
      using pe pm by blast+
    then show ?thesis
      unfolding parse_value.simps(2) [of "Suc n" s]
        parse_value.simps(2) [of n s]
      using Cons by (simp del: parse_elements.simps parse_members.simps split: list.split)
  qed
  moreover have "parse_elements (Suc (Suc n)) s acc = parse_elements (Suc n) s acc"
    if fuel: "2 * length s + 1 \<le> Suc n" for s acc
  proof -
    have same: "parse_value (Suc n) s = parse_value n s"
      using pv fuel by simp
    show ?thesis
    proof (cases "parse_value n s")
      case None
      then show ?thesis
        unfolding parse_elements.simps(2) [of "Suc n" s acc]
          parse_elements.simps(2) [of n s acc]
        using same
        by (simp del: parse_value.simps)
    next
      case (Some vr)
      obtain v r where vr: "vr = (v, r)"
        by (cases vr)
      have r: "length r < length s"
        using Some vr by (intro parse_value_shorter [of n s v r]) simp
      show ?thesis
      proof (cases "skip_ws r")
        case Nil
        then show ?thesis
          unfolding parse_elements.simps(2) [of "Suc n" s acc]
            parse_elements.simps(2) [of n s acc]
          using same Some vr
          by (simp del: parse_value.simps)
      next
        case (Cons c r1)
        have "2 * length r1 + 1 \<le> n"
          using skip_ws_Cons [OF Cons] r fuel by simp
        then have "parse_elements (Suc n) r1 (acc @ [v]) = parse_elements n r1 (acc @ [v])"
          using pe by blast
        then show ?thesis
          unfolding parse_elements.simps(2) [of "Suc n" s acc]
            parse_elements.simps(2) [of n s acc]
          using same Some vr Cons by (simp del: parse_elements.simps parse_value.simps)
      qed
    qed
  qed
  moreover have "parse_members (Suc (Suc n)) s acc = parse_members (Suc n) s acc"
    if fuel: "2 * length s + 1 \<le> Suc n" for s acc
  proof (cases "skip_ws s")
    case Nil
    then show ?thesis
      unfolding parse_members.simps(2) [of "Suc n" s acc]
        parse_members.simps(2) [of n s acc]
      by (simp del: parse_members.simps)
  next
    case (Cons q cs)
    note s = skip_ws_Cons [OF Cons]
    show ?thesis
    proof (cases "lex_chars cs")
      case None
      then show ?thesis
        unfolding parse_members.simps(2) [of "Suc n" s acc]
          parse_members.simps(2) [of n s acc]
        using Cons
        by simp
    next
      case (Some kr)
      obtain k r where kr: "kr = (k, r)"
        by (cases kr)
      have r: "length r < length cs"
        using Some kr by (intro lex_chars_shorter [of cs k r]) simp
      show ?thesis
      proof (cases "skip_ws r")
        case Nil
        then show ?thesis
          unfolding parse_members.simps(2) [of "Suc n" s acc]
            parse_members.simps(2) [of n s acc]
          using Cons Some kr
          by simp
      next
        case colon: (Cons c r1)
        note r1 = skip_ws_Cons [OF colon]
        have same: "parse_value (Suc n) r1 = parse_value n r1"
          using pv [of r1] r1 r s fuel by simp
        show ?thesis
        proof (cases "parse_value n r1")
          case None
          then show ?thesis
            unfolding parse_members.simps(2) [of "Suc n" s acc]
              parse_members.simps(2) [of n s acc]
            using Cons Some kr colon same
            by (simp del: parse_value.simps parse_members.simps)
        next
          case val: (Some vr)
          obtain v r2 where vr: "vr = (v, r2)"
            by (cases vr)
          have r2: "length r2 < length r1"
            using val vr by (intro parse_value_shorter [of n r1 v r2]) simp
          show ?thesis
          proof (cases "skip_ws r2")
            case Nil
            then show ?thesis
              unfolding parse_members.simps(2) [of "Suc n" s acc]
                parse_members.simps(2) [of n s acc]
              using Cons Some kr colon same val vr
              by (simp del: parse_value.simps parse_members.simps)
          next
            case comma: (Cons c2 r3)
            have "2 * length r3 + 1 \<le> n"
              using skip_ws_Cons [OF comma] r2 r1 r s fuel by simp
            then have "parse_members (Suc n) r3 (acc @ [(k, v)]) =
                       parse_members n r3 (acc @ [(k, v)])"
              using pm by blast
            then show ?thesis
              unfolding parse_members.simps(2) [of "Suc n" s acc]
                parse_members.simps(2) [of n s acc]
              using Cons Some kr colon same val vr comma by (simp del: parse_value.simps parse_members.simps)
          qed
        qed
      qed
    qed
  qed
  ultimately show ?case
    by blast
qed

lemma parse_value_fuel:
  "2 * length s \<le> n \<Longrightarrow> parse_value (n + k) s = parse_value n s"
proof (induction k)
  case 0
  then show ?case by simp
next
  case (Suc k)
  have "parse_value (Suc (n + k)) s = parse_value (n + k) s"
    using parse_fuel [of "n + k"] Suc.prems by simp
  then show ?case
    using Suc by simp
qed

lemma JSON_parse_fuel:
  assumes "2 * length s + 1 \<le> n"
  shows "JSON_parse s =
           (case parse_value n s of
              None \<Rightarrow> None
            | Some (v, r) \<Rightarrow> if skip_ws r = [] then Some v else None)"
proof -
  obtain k where "n = 2 * length s + 1 + k"
    using assms by (metis le_Suc_ex)
  then have "parse_value n s = parse_value (2 * length s + 1) s"
    using parse_value_fuel [of s "2 * length s + 1" k] by simp
  then show ?thesis
    by (simp add: JSON_parse_def)
qed

lemma JSON_parse_examples:
  \<open>JSON_parse (js ''[1,]'') = None\<close>
  \<open>JSON_parse (js ''{"a":1,"a":[true, null]} '') =
     Some (JObject [(js ''a'', JNumber (js ''1'')), (js ''a'', JArray [JBool True, JNull])])\<close>
  \<open>JSON_parse (js ''-0.5e+10'') = Some (JNumber (js ''-0.5e+10''))\<close>
  \<open>JSON_parse (js ''01'') = None\<close>
  \<open>JSON_parse ([34, 92, 117, 48, 48, 101, 57, 92, 110, 34]) = Some (JString [233, 10])\<close>
  \<open>JSON_parse (js ''undefined'') = None\<close>
  by code_simp+

section \<open>The error classifier\<close>









section \<open>The response interpreter\<close>

lemma first_inline_split:
  "list_all (\<lambda>q. inlineData q = None) pre \<Longrightarrow> inlineData p = Some d \<Longrightarrow>
   first_inline (pre @ p # post) = Some d"
  by (induction pre) auto

lemma first_inline_None:
  "first_inline ps = None \<longleftrightarrow> list_all (\<lambda>q. inlineData q = None) ps"
  by (induction ps) (auto split: option.splits)

text \<open>
  C2 (as the code has it). A response is interpreted in this order. When there is no
  candidate, or the first candidate has no content parts, the outcome is the error
  \<^verbatim>\<open>AI did not return a valid result.\<close> followed by the finish reason and the safety
  note when present. Else, when a part has inline data, the outcome is the data URL
  \<^verbatim>\<open>data:<mimeType>;base64,<data>\<close> of the first such part, whatever the parts before
  and after it are. Else, when the first part has a text that is not empty, the outcome
  is the refusal error, whose message is fixed: the text is not in it.
\<close>

theorem interpretResponse_order:
  "(candidate_parts (first_candidate resp) = [] \<longrightarrow>
      interpretResponse resp =
        Inl (Error (js ''AI did not return a valid result.'' @ detail_of (first_candidate resp)))) \<and>
   (candidate_parts (first_candidate resp) = pre @ p # post \<and>
    list_all (\<lambda>q. inlineData q = None) pre \<and> inlineData p = Some d \<longrightarrow>
      interpretResponse resp =
        Inr (js ''data:'' @ or_undefined (mimeType d) @ js '';base64,'' @ or_undefined (data d))) \<and>
   (candidate_parts (first_candidate resp) = p # post \<and>
    list_all (\<lambda>q. inlineData q = None) (p # post) \<and> text_of p = Some t \<and> t \<noteq> [] \<longrightarrow>
      interpretResponse resp =
        Inl (Error (js ''Model responded with text instead of an image. The prompt may have been blocked.'')))"
  by (auto simp add: interpretResponse_def Let_def first_inline_split data_url_def
      refusal_message_def dest!: first_inline_None [THEN iffD2])

theorem interpretResponse_order_witness:
  "interpretResponse image_response = Inr (js ''data:image/png;base64,iVBOR'') \<and>
   interpretResponse empty_response = Inl (Error (js ''AI did not return a valid result.'')) \<and>
   interpretResponse blocked_response =
     Inl (Error (js ''AI did not return a valid result. Reason: SAFETY. The prompt may have been blocked by safety filters.'')) \<and>
   interpretResponse text_response =
     Inl (Error (js ''Model responded with text instead of an image. The prompt may have been blocked.''))"
proof -
  have ps: "candidate_parts (first_candidate image_response) =
          [Part None (Some (js ''Here it is''))] @
          Part (Some (InlineData (Some (js ''image/png'')) (Some (js ''iVBOR'')))) None #
          [Part (Some (InlineData (Some (js ''image/jpeg'')) (Some (js ''9j4AAQ'')))) None]"
    by (simp add: image_response_def first_candidate_def candidate_parts_def at_index_def)
  have url: "js ''data:'' @ js ''image/png'' @ js '';base64,'' @ js ''iVBOR'' =
             js ''data:image/png;base64,iVBOR''"
    by (simp add: js_def)
  have "interpretResponse image_response = Inr (js ''data:image/png;base64,iVBOR'')"
    using interpretResponse_order [of image_response "[Part None (Some (js ''Here it is''))]"
        "Part (Some (InlineData (Some (js ''image/png'')) (Some (js ''iVBOR'')))) None"
        "[Part (Some (InlineData (Some (js ''image/jpeg'')) (Some (js ''9j4AAQ'')))) None]"
        "InlineData (Some (js ''image/png'')) (Some (js ''iVBOR''))"]
    unfolding ps by (simp add: or_undefined_def url)
  moreover have
    "interpretResponse empty_response = Inl (Error (js ''AI did not return a valid result.''))"
    by code_simp
  moreover have
    "interpretResponse blocked_response =
       Inl (Error (js ''AI did not return a valid result. Reason: SAFETY. The prompt may have been blocked by safety filters.''))"
    by code_simp
  moreover have
    "interpretResponse text_response =
       Inl (Error (js ''Model responded with text instead of an image. The prompt may have been blocked.''))"
    by code_simp
  ultimately show ?thesis
    by blast
qed

text \<open>
  C2 (as the spec states it) fails in its last part: the refusal does not carry the text
  of the part. For the response whose only part is the text \<^verbatim>\<open>I cannot do that\<close> the
  outcome is the error with the fixed message, and the text does not occur in it.
\<close>

theorem interpretResponse_order_counterexample:
  "interpretResponse text_response =
     Inl (Error (js ''Model responded with text instead of an image. The prompt may have been blocked.'')) \<and>
   \<not> str_includes
       (js ''Model responded with text instead of an image. The prompt may have been blocked.'')
       (js ''I cannot do that'')"
  by code_simp

section \<open>The normalizer\<close>

lemma Math_round_div:
  assumes "0 < b"
  shows "Math_round (real a / real b) = (2 * a + b) div (2 * b)"
proof -
  have "real a / real b + 1 / 2 = real (2 * a + b) / real (2 * b)"
    using assms by (simp add: field_simps)
  then have "\<lfloor>real a / real b + 1 / 2\<rfloor> = int ((2 * a + b) div (2 * b))"
    by (simp only: floor_divide_of_nat_eq)
  then show ?thesis
    by (simp add: Math_round_def)
qed

lemma Math_round_near:
  assumes "0 \<le> x"
  shows "\<bar>real (Math_round x) - x\<bar> \<le> 1 / 2"
proof -
  have nonneg: "0 \<le> \<lfloor>x + 1 / 2\<rfloor>"
    using assms by simp
  have lo: "real_of_int \<lfloor>x + 1 / 2\<rfloor> \<le> x + 1 / 2"
    by (rule of_int_floor_le)
  have hi: "x + 1 / 2 < real_of_int \<lfloor>x + 1 / 2\<rfloor> + 1"
    by linarith
  have "real (Math_round x) = real_of_int \<lfloor>x + 1 / 2\<rfloor>"
    using nonneg by (simp add: Math_round_def)
  then show ?thesis
    using lo hi by linarith
qed

lemma Math_round_le:
  assumes "a \<le> b" and "0 < b"
  shows "Math_round (real (a * 2048) / real b) \<le> 2048"
proof -
  have "2 * (a * 2048) + b < 2049 * (2 * b)"
    using assms by simp
  then have "(2 * (a * 2048) + b) div (2 * b) < 2049"
    using assms(2) by (simp add: div_less_iff_less_mult)
  moreover have "Math_round (real (a * 2048) / real b) = (2 * (a * 2048) + b) div (2 * b)"
    using assms(2) by (rule Math_round_div)
  ultimately show ?thesis
    by simp
qed

lemma resize_rerender:
  assumes "readAsDataURL h file = Some src"
    and "loadImage h src = Inr (w, ht)"
    and "file_type file \<notin> set SUPPORTED_MIME_TYPES \<or> w > MAX_DIMENSION \<or> ht > MAX_DIMENSION"
  shows "resizeImageForApi h file =
           (if \<not> getContext2d h file then Inl (Error (js ''Could not create canvas context.''))
            else if \<not> toBlob h (draw_canvas src (new_dimensions w ht))
            then Inl (Error (js ''Failed to create blob from canvas.''))
            else Inr (\<lparr>file_name = newFileName (file_name file),
                        file_type = js ''image/png'',
                        file_content =
                          CanvasBlob (draw_canvas src (new_dimensions w ht)) (js ''image/png'')
                            (95 / 100)\<rparr>,
                      js ''image/png''))"
proof -
  have "\<not> (\<not> (w > MAX_DIMENSION \<or> ht > MAX_DIMENSION) \<and>
           \<not> file_type file \<notin> set SUPPORTED_MIME_TYPES)"
    using assms(3) by blast
  then show ?thesis
    unfolding resizeImageForApi_def Let_def
    by (simp only: assms(1) assms(2) option.case sum.case prod.case if_False)
qed

lemma new_dimensions_wide:
  assumes "ht < w" and "2048 < w"
  shows "new_dimensions w ht = (2048, Math_round (real (ht * 2048) / real w))"
  using assms by (simp add: new_dimensions_def MAX_DIMENSION_def)

lemma new_dimensions_tall:
  assumes "w \<le> ht" and "2048 < ht"
  shows "new_dimensions w ht = (Math_round (real (w * 2048) / real ht), 2048)"
  using assms by (simp add: new_dimensions_def MAX_DIMENSION_def)

lemma new_dimensions_small:
  assumes "w \<le> 2048" and "ht \<le> 2048"
  shows "new_dimensions w ht = (w, ht)"
  using assms by (simp add: new_dimensions_def MAX_DIMENSION_def)

lemma photo_host_simps:
  "readAsDataURL (photo_host w ht) f = Some (js ''data:'' @ file_type f @ js '';base64,AAAA'')"
  "loadImage (photo_host w ht) src = Inr (w, ht)"
  "getContext2d (photo_host w ht) f"
  "toBlob (photo_host w ht) cv"
  by (simp_all add: photo_host_def)

lemma Math_round_nat: "Math_round (real n) = n"
proof -
  have "\<lfloor>real n + 1 / 2\<rfloor> = int n"
    by linarith
  then show ?thesis
    by (simp add: Math_round_def)
qed

text \<open>
  C3. An image whose declared type is \<^verbatim>\<open>image/jpeg\<close> or \<^verbatim>\<open>image/png\<close> and whose width
  and height are both at most 2048 is returned as it came: the same file (name, type
  and bytes) and its own type.
\<close>

theorem resize_unchanged:
  assumes "file_type file = js ''image/jpeg'' \<or> file_type file = js ''image/png''"
    and "readAsDataURL h file = Some src"
    and "loadImage h src = Inr (w, ht)"
    and "w \<le> 2048" and "ht \<le> 2048"
  shows "resizeImageForApi h file = Inr (file, file_type file)"
  using assms
  by (auto simp add: resizeImageForApi_def SUPPORTED_MIME_TYPES_def MAX_DIMENSION_def)

theorem resize_unchanged_witness:
  "resizeImageForApi (photo_host 800 600) jpeg_file = Inr (jpeg_file, js ''image/jpeg'')"
  using resize_unchanged [of jpeg_file "photo_host 800 600"
      "js ''data:'' @ file_type jpeg_file @ js '';base64,AAAA''" 800 600]
  by (simp add: photo_host_simps) (simp add: jpeg_file_def)

text \<open>
  C4. For an image whose width or height exceeds 2048, when the canvas gives a context,
  the image is drawn on a canvas whose longer side is exactly 2048 and whose shorter side
  is the original shorter side times 2048 over the original longer side, rounded to the
  nearest integer, so within half a pixel of the exact quotient; the side that was
  longer stays the longer. The output is the PNG encoding of that canvas; only when
  \<^verbatim>\<open>toBlob\<close> gives no blob there is none, and the call fails.
\<close>

theorem resize_dimensions:
  assumes read: "readAsDataURL h file = Some src"
    and load: "loadImage h src = Inr (w, ht)"
    and big: "w > 2048 \<or> ht > 2048"
    and ctx: "getContext2d h file"
  shows "\<exists>cv.
           resizeImageForApi h file =
             (if toBlob h cv
              then Inr (\<lparr>file_name = newFileName (file_name file),
                          file_type = js ''image/png'',
                          file_content = CanvasBlob cv (js ''image/png'') (95 / 100)\<rparr>,
                        js ''image/png'')
              else Inl (Error (js ''Failed to create blob from canvas.''))) \<and>
           drawn cv = Some (src, 0, 0, canvas_width cv, canvas_height cv) \<and>
           max (canvas_width cv) (canvas_height cv) = 2048 \<and>
           min (canvas_width cv) (canvas_height cv) =
             Math_round (real (min w ht * 2048) / real (max w ht)) \<and>
           \<bar>real (min (canvas_width cv) (canvas_height cv)) -
              real (min w ht * 2048) / real (max w ht)\<bar> \<le> 1 / 2 \<and>
           (ht < w \<longrightarrow> canvas_width cv = 2048) \<and> (w \<le> ht \<longrightarrow> canvas_height cv = 2048)"
proof -
  let ?cv = "draw_canvas src (new_dimensions w ht)"
  have res: "resizeImageForApi h file =
          (if toBlob h ?cv
           then Inr (\<lparr>file_name = newFileName (file_name file), file_type = js ''image/png'',
                       file_content = CanvasBlob ?cv (js ''image/png'') (95 / 100)\<rparr>,
                     js ''image/png'')
           else Inl (Error (js ''Failed to create blob from canvas.'')))"
    using resize_rerender [OF read load] big ctx by (simp add: MAX_DIMENSION_def)
  have drawn: "drawn ?cv = Some (src, 0, 0, canvas_width ?cv, canvas_height ?cv)"
    by (simp add: draw_canvas_def)
  have dims: "max (canvas_width ?cv) (canvas_height ?cv) = 2048 \<and>
        min (canvas_width ?cv) (canvas_height ?cv) =
          Math_round (real (min w ht * 2048) / real (max w ht)) \<and>
        (ht < w \<longrightarrow> canvas_width ?cv = 2048) \<and> (w \<le> ht \<longrightarrow> canvas_height ?cv = 2048)"
  proof (cases "ht < w")
    case True
    then have wbig: "2048 < w"
      using big by arith
    have "Math_round (real (ht * 2048) / real w) \<le> 2048"
      using True by (intro Math_round_le) simp_all
    then show ?thesis
      using True by (simp add: new_dimensions_wide [OF True wbig] draw_canvas_def max_def min_def)
  next
    case False
    then have wle: "w \<le> ht" and hbig: "2048 < ht"
      using big by arith+
    have "Math_round (real (w * 2048) / real ht) \<le> 2048"
      using wle hbig by (intro Math_round_le) simp_all
    then show ?thesis
      using wle by (simp add: new_dimensions_tall [OF wle hbig] draw_canvas_def max_def min_def)
  qed
  have near: "\<bar>real (Math_round (real (min w ht * 2048) / real (max w ht))) -
               real (min w ht * 2048) / real (max w ht)\<bar> \<le> 1 / 2"
    by (rule Math_round_near) simp
  have "resizeImageForApi h file =
          (if toBlob h ?cv
           then Inr (\<lparr>file_name = newFileName (file_name file), file_type = js ''image/png'',
                       file_content = CanvasBlob ?cv (js ''image/png'') (95 / 100)\<rparr>,
                     js ''image/png'')
           else Inl (Error (js ''Failed to create blob from canvas.''))) \<and>
        drawn ?cv = Some (src, 0, 0, canvas_width ?cv, canvas_height ?cv) \<and>
        max (canvas_width ?cv) (canvas_height ?cv) = 2048 \<and>
        min (canvas_width ?cv) (canvas_height ?cv) =
          Math_round (real (min w ht * 2048) / real (max w ht)) \<and>
        \<bar>real (min (canvas_width ?cv) (canvas_height ?cv)) -
           real (min w ht * 2048) / real (max w ht)\<bar> \<le> 1 / 2 \<and>
        (ht < w \<longrightarrow> canvas_width ?cv = 2048) \<and> (w \<le> ht \<longrightarrow> canvas_height ?cv = 2048)"
    using res drawn dims near by simp
  then show ?thesis
    by (rule exI [of _ ?cv])
qed

theorem resize_dimensions_witness:
  "\<exists>out cv. resizeImageForApi (photo_host 4000 3000) jpeg_file = Inr (out, js ''image/png'') \<and>
     file_content out = CanvasBlob cv (js ''image/png'') (95 / 100) \<and>
     canvas_width cv = 2048 \<and> canvas_height cv = 1536"
proof -
  have "Math_round (real (min 4000 3000 * 2048) / real (max 4000 3000)) = Math_round (real 1536)"
    by simp
  then have r: "Math_round (real (min 4000 3000 * 2048) / real (max 4000 3000)) = 1536"
    by (simp only: Math_round_nat)
  have "\<exists>cv.
          resizeImageForApi (photo_host 4000 3000) jpeg_file =
            (if toBlob (photo_host 4000 3000) cv
             then Inr (\<lparr>file_name = newFileName (file_name jpeg_file),
                         file_type = js ''image/png'',
                         file_content = CanvasBlob cv (js ''image/png'') (95 / 100)\<rparr>,
                       js ''image/png'')
             else Inl (Error (js ''Failed to create blob from canvas.''))) \<and>
          drawn cv =
            Some (js ''data:'' @ file_type jpeg_file @ js '';base64,AAAA'', 0, 0,
                  canvas_width cv, canvas_height cv) \<and>
          max (canvas_width cv) (canvas_height cv) = 2048 \<and>
          min (canvas_width cv) (canvas_height cv) =
            Math_round (real (min 4000 3000 * 2048) / real (max 4000 3000)) \<and>
          \<bar>real (min (canvas_width cv) (canvas_height cv)) -
             real (min 4000 3000 * 2048) / real (max 4000 3000)\<bar> \<le> 1 / 2 \<and>
          ((3000::nat) < 4000 \<longrightarrow> canvas_width cv = 2048) \<and>
          ((4000::nat) \<le> 3000 \<longrightarrow> canvas_height cv = 2048)"
    by (rule resize_dimensions) (simp_all add: photo_host_simps)
  then obtain cv where
    res: "resizeImageForApi (photo_host 4000 3000) jpeg_file =
       Inr (\<lparr>file_name = newFileName (file_name jpeg_file), file_type = js ''image/png'',
              file_content = CanvasBlob cv (js ''image/png'') (95 / 100)\<rparr>,
            js ''image/png'')"
    and "max (canvas_width cv) (canvas_height cv) = 2048"
    and "min (canvas_width cv) (canvas_height cv) =
       Math_round (real (min 4000 3000 * 2048) / real (max 4000 3000))"
    and "(3000::nat) < 4000 \<longrightarrow> canvas_width cv = 2048"
    unfolding photo_host_simps(4) [THEN eqTrueI] if_True by blast
  then have "canvas_width cv = 2048 \<and> canvas_height cv = 1536"
    unfolding r by simp
  then show ?thesis
    using res by (intro exI [of _ "\<lparr>file_name = newFileName (file_name jpeg_file),
        file_type = js ''image/png'',
        file_content = CanvasBlob cv (js ''image/png'') (95 / 100)\<rparr>"] exI [of _ cv]) simp
qed



section \<open>Strings and patterns\<close>

lemma str_includes_iff: "str_includes s sub \<longleftrightarrow> (\<exists>pre post. s = pre @ sub @ post)"
proof (induction s)
  case Nil
  then show ?case by auto
next
  case (Cons c cs)
  show ?case
  proof
    assume "str_includes (c # cs) sub"
    then consider "prefix sub (c # cs)" | "str_includes cs sub"
      by auto
    then show "\<exists>pre post. c # cs = pre @ sub @ post"
    proof cases
      case 1
      then obtain post where "c # cs = sub @ post"
        by (auto simp add: prefix_def)
      then have "c # cs = [] @ sub @ post"
        by simp
      then show ?thesis
        by blast
    next
      case 2
      then obtain pre post where "cs = pre @ sub @ post"
        using Cons.IH by blast
      then have "c # cs = (c # pre) @ sub @ post"
        by simp
      then show ?thesis
        by blast
    qed
  next
    assume "\<exists>pre post. c # cs = pre @ sub @ post"
    then obtain pre post where eq: "c # cs = pre @ sub @ post"
      by blast
    show "str_includes (c # cs) sub"
    proof (cases pre)
      case Nil
      then have "prefix sub (c # cs)"
        using eq by (simp add: prefix_def)
      then show ?thesis
        by simp
    next
      case (Cons a pre')
      then have "cs = pre' @ sub @ post"
        using eq by simp
      then have "str_includes cs sub"
        using Cons.IH by blast
      then show ?thesis
        by simp
    qed
  qed
qed

lemma length_js [simp]: "length (js s) = length s"
  by (simp add: js_def)

lemma js_append: "js (a @ b) = js a @ js b"
  by (simp add: js_def)



lemma extractDecade_Some:
  "extractDecade s = Some d \<Longrightarrow>
     \<exists>pre post. s = pre @ d @ post \<and> decade_here d \<and> length d = 5"
proof (induction s)
  case Nil
  then show ?case by simp
next
  case (Cons c cs)
  show ?case
  proof (cases "decade_here (c # cs)")
    case True
    then have d: "d = take 5 (c # cs)"
      using Cons.prems by simp
    from True obtain a b c' e f rest where s: "c # cs = a # b # c' # e # f # rest"
      by (auto simp add: decade_here_def split: list.splits)
    have "c # cs = [] @ d @ drop 5 (c # cs)"
      by (simp add: d)
    moreover have "decade_here d" "length d = 5"
      using True unfolding d s by (simp_all add: decade_here_def)
    ultimately show ?thesis
      by blast
  next
    case False
    then have "extractDecade cs = Some d"
      using Cons.prems by simp
    then obtain pre post where "cs = pre @ d @ post" "decade_here d" "length d = 5"
      using Cons.IH by blast
    then have "c # cs = (c # pre) @ d @ post \<and> decade_here d \<and> length d = 5"
      by simp
    then show ?thesis
      by blast
  qed
qed

lemma extractDecade_None:
  "extractDecade s = None \<longleftrightarrow> (\<forall>pre post. s = pre @ post \<longrightarrow> \<not> decade_here post)"
proof (induction s)
  case Nil
  then show ?case by (simp add: decade_here_def)
next
  case (Cons c cs)
  show ?case
  proof
    assume none: "extractDecade (c # cs) = None"
    then have here: "\<not> decade_here (c # cs)" and rest: "extractDecade cs = None"
      by (simp_all split: if_splits)
    show "\<forall>pre post. c # cs = pre @ post \<longrightarrow> \<not> decade_here post"
    proof (intro allI impI)
      fix pre post
      assume eq: "c # cs = pre @ post"
      show "\<not> decade_here post"
      proof (cases pre)
        case Nil
        then show ?thesis using eq here by simp
      next
        case (Cons a pre')
        then have "cs = pre' @ post" using eq by simp
        then show ?thesis using rest Cons.IH by blast
      qed
    qed
  next
    assume all: "\<forall>pre post. c # cs = pre @ post \<longrightarrow> \<not> decade_here post"
    then have "\<not> decade_here (c # cs)"
      by (metis append_Nil)
    moreover have "\<forall>pre post. cs = pre @ post \<longrightarrow> \<not> decade_here post"
      using all by (metis append_Cons)
    ultimately show "extractDecade (c # cs) = None"
      using Cons.IH by simp
  qed
qed

lemma decade_here_shape:
  assumes "decade_here d" and "length d = 5"
  shows "list_all is_digit (take 4 d) \<and> d ! 4 = 115"
proof -
  from assms obtain a b c e f where "d = [a, b, c, e, f]"
    by (auto simp add: decade_here_def length_Suc_conv split: list.splits)
  then show ?thesis
    using assms(1) by (simp add: decade_here_def)
qed

lemma fallback_names_decade: "str_includes (getFallbackPrompt decade) decade"
  unfolding str_includes_iff getFallbackPrompt_def by blast

section \<open>Attempts and requests\<close>

lemma refusal_message_head: "refusal_message = 77 # tl refusal_message"
  by (simp add: refusal_message_def js_def)

lemma interpretResponse_text_only:
  "interpretResponse resp = Inl (Error refusal_message) \<longleftrightarrow> text_only resp"
proof -
  have a: "js ''AI did not return a valid result.'' @ x \<noteq> refusal_message" for x
    by (simp add: refusal_message_def js_def)
  have b: "no_image_message \<noteq> refusal_message"
    by (simp add: refusal_message_def no_image_message_def js_def)
  show ?thesis
    using a b
    by (auto simp add: interpretResponse_def text_only_def Let_def
        split: list.splits option.splits)
qed

lemma includes_refusal:
  "str_includes refusal_message (js ''Model responded with text'')"
  "str_includes refusal_message (js ''Model responded with text instead of an image'')"
  by code_simp+

lemma catch_call_refusal: "catch_call h (Error refusal_message) action = Error refusal_message"
  by (simp add: catch_call_def message_string_def includes_refusal)

lemma is_refusal_refusal: "is_refusal (Error refusal_message)"
  by (simp add: is_refusal_def message_string_def includes_refusal)

lemma call_attempts:
  "attempts (snd (callImageEditingModel h ps action st)) = Suc (attempts st)"
  by (simp add: callImageEditingModel_def split: reply.split)

lemma call_sent:
  "sent (snd (callImageEditingModel h ps action st)) =
     sent st @ (case generateContent h (attempts st) ps of NoClient m \<Rightarrow> [] | _ \<Rightarrow> [ps])"
  by (simp add: callImageEditingModel_def split: reply.split)

lemma call_sent_length:
  "length (sent (snd (callImageEditingModel h ps action st))) \<le> Suc (length (sent st))"
  by (simp add: call_sent split: reply.split)

lemma call_refusal:
  assumes "generateContent h (attempts st) ps = Responds resp" and "text_only resp"
  shows "callImageEditingModel h ps action st =
           (Inl (Error refusal_message),
            st\<lparr>attempts := Suc (attempts st), sent := sent st @ [ps]\<rparr>)"
  using assms interpretResponse_text_only [of resp]
  by (simp add: callImageEditingModel_def catch_call_refusal)

lemma refusal_is_refused:
  assumes "generateContent h 0 ps = Responds resp" and "text_only resp"
  shows "first_attempt_refused h ps action"
proof -
  have "generateContent h (attempts no_calls) ps = Responds resp"
    using assms(1) by (simp add: no_calls_def)
  from call_refusal [OF this assms(2)] show ?thesis
    by (simp add: first_attempt_refused_def is_refusal_refusal)
qed

lemma no_calls_simps [simp]: "attempts no_calls = 0" "sent no_calls = []"
  by (simp_all add: no_calls_def)

lemma with_fallback_sent:
  "length (sent (snd (generateWithFallback pre action h f prompt))) \<le> 2 \<and>
   (length (sent (snd (generateWithFallback pre action h f prompt))) = 2 \<longrightarrow>
      (\<exists>imagePart. fileToGenerativePart h f = Inr imagePart \<and>
         first_attempt_refused h [imagePart, text_part (pre @ prompt)] action))"
proof (cases "fileToGenerativePart h f")
  case (Inl e)
  then show ?thesis
    by (simp add: generateWithFallback_def)
next
  case (Inr imagePart)
  obtain r st where first:
    "callImageEditingModel h [imagePart, text_part (pre @ prompt)] action no_calls = (r, st)"
    by (cases "callImageEditingModel h [imagePart, text_part (pre @ prompt)] action no_calls")
  have st: "length (sent st) \<le> 1"
    using call_sent_length [of h "[imagePart, text_part (pre @ prompt)]" action no_calls]
    by (simp add: first)
  show ?thesis
  proof (cases "first_attempt_refused h [imagePart, text_part (pre @ prompt)] action")
    case True
    then obtain e where r: "r = Inl e" "is_refusal e"
      by (auto simp add: first_attempt_refused_def first split: sum.splits)
    have "generateWithFallback pre action h f prompt =
            callImageEditingModel h [imagePart, text_part prompt] (action @ js '' (fallback)'') st"
      by (simp add: generateWithFallback_def Inr first r)
    then show ?thesis
      using call_sent_length [of h "[imagePart, text_part prompt]" "action @ js '' (fallback)''" st]
        st True Inr
      by simp
  next
    case False
    then have "generateWithFallback pre action h f prompt = (r, st)"
      by (auto simp add: generateWithFallback_def Inr first first_attempt_refused_def
          split: sum.splits)
    then show ?thesis
      using st by simp
  qed
qed

lemma decade_sent:
  "length (sent (snd (generateDecadeImage h url prompt))) \<le> 2 \<and>
   (length (sent (snd (generateDecadeImage h url prompt))) = 2 \<longrightarrow>
      extractDecade prompt \<noteq> None \<and>
      (\<exists>m d. match_data_url url = Some (m, d) \<and>
         first_attempt_refused h [image_part m (Some d), text_part prompt]
           (js ''generate '' @ or_null (extractDecade prompt) @ js '' image'')))"
proof (cases "match_data_url url")
  case None
  then show ?thesis
    by (simp add: generateDecadeImage_def)
next
  case (Some md)
  obtain m d where md: "md = (m, d)"
    by (cases md)
  let ?ps = "[image_part m (Some d), text_part prompt]"
  let ?action = "js ''generate '' @ or_null (extractDecade prompt) @ js '' image''"
  obtain r st where first: "callImageEditingModel h ?ps ?action no_calls = (r, st)"
    by (cases "callImageEditingModel h ?ps ?action no_calls")
  have st: "length (sent st) \<le> 1"
    using call_sent_length [of h ?ps ?action no_calls] by (simp add: first)
  show ?thesis
  proof (cases "first_attempt_refused h ?ps ?action \<and> extractDecade prompt \<noteq> None")
    case True
    then obtain e decade where r: "r = Inl e" "is_refusal e" and dec: "extractDecade prompt = Some decade"
      by (auto simp add: first_attempt_refused_def first split: sum.splits)
    have first': "callImageEditingModel h ?ps
                    (js ''generate '' @ or_null (Some decade) @ js '' image'') no_calls = (r, st)"
      using first dec by simp
    have "generateDecadeImage h url prompt =
            callImageEditingModel h [image_part m (Some d), text_part (getFallbackPrompt decade)]
              (js ''generate '' @ decade @ js '' image (fallback)'') st"
      by (simp add: generateDecadeImage_def Let_def Some md first' r dec)
    then show ?thesis
      using call_sent_length [of h "[image_part m (Some d), text_part (getFallbackPrompt decade)]"
          "js ''generate '' @ decade @ js '' image (fallback)''" st]
        st True Some md
      by simp
  next
    case False
    then have "generateDecadeImage h url prompt = (r, st)"
      by (auto simp add: generateDecadeImage_def Some md first first_attempt_refused_def
          split: sum.splits option.splits)
    then show ?thesis
      using st by simp
  qed
qed

lemma single_call_sent:
  "length (sent (snd (generateEditedImage h f prompt hotspot))) \<le> 1"
  "length (sent (snd (removeBackgroundImage h f))) \<le> 1"
  "length (sent (snd (generateFusedImage h t f fs prompt))) \<le> 1"
proof -
  have one: "length (sent (snd (callImageEditingModel h ps action no_calls))) \<le> 1" for ps action
    using call_sent_length [of h ps action no_calls] by simp
  show "length (sent (snd (generateEditedImage h f prompt hotspot))) \<le> 1"
    using one by (simp add: generateEditedImage_def split: sum.split)
  show "length (sent (snd (removeBackgroundImage h f))) \<le> 1"
    using one by (simp add: removeBackgroundImage_def split: sum.split)
  show "length (sent (snd (generateFusedImage h t f fs prompt))) \<le> 1"
    using one
    by (simp add: generateFusedImage_def Let_def split: sum.split prod.split) (metis snd_conv)
qed



lemma filter_refusing:
  "generateFilteredImage refusing_host jpeg_file (js ''vintage sepia'') =
     (Inr (js ''data:image/png;base64,iVBOR''),
      \<lparr>attempts = 2,
         sent = [[image_part (js ''image/jpeg'') (Some (js ''AAAA'')),
                  text_part (js ''Apply this filter: vintage sepia'')],
                 [image_part (js ''image/jpeg'') (Some (js ''AAAA'')),
                  text_part (js ''vintage sepia'')]]\<rparr>)"
  by code_simp

lemma decade_example:
  "match_data_url (js ''data:image/png;base64,AAAA'') = Some (js ''image/png'', js ''AAAA'')"
  "extractDecade (js ''a portrait as if living in the 1970s'') = Some (js ''1970s'')"
  "extractDecade (js ''a portrait as if living long ago'') = None"
  "text_only text_response"
  by code_simp+

text \<open>
  C1 (as the code has it). No operation sends more than two requests; point edit,
  background removal and fusion send at most one. Filter, style, adjustment, texture
  and decade transform send a second request only when the first attempt failed with an
  error that the operation's \<^verbatim>\<open>catch\<close> takes for a refusal (an \<^verbatim>\<open>Error\<close> whose message
  contains \<^verbatim>\<open>Model responded with text instead of an image\<close>), and decade transform
  only when, besides, a decade can be extracted from the prompt. A first attempt that
  the service answers with a refusal (a text only) fails with such an error.
\<close>

theorem retry_at_most_once:
  "length (sent (snd (generateEditedImage h f prompt hotspot))) \<le> 1 \<and>
   length (sent (snd (removeBackgroundImage h f))) \<le> 1 \<and>
   length (sent (snd (generateFusedImage h t f fs prompt))) \<le> 1 \<and>
   length (sent (snd (generateFilteredImage h f prompt))) \<le> 2 \<and>
   length (sent (snd (generateStyledImage h f prompt))) \<le> 2 \<and>
   length (sent (snd (generateAdjustedImage h f prompt))) \<le> 2 \<and>
   length (sent (snd (generateTexturedImage h f prompt))) \<le> 2 \<and>
   length (sent (snd (generateDecadeImage h url prompt))) \<le> 2 \<and>
   (length (sent (snd (generateFilteredImage h f prompt))) = 2 \<longrightarrow>
      (\<exists>imagePart. fileToGenerativePart h f = Inr imagePart \<and>
         first_attempt_refused h [imagePart, text_part (js ''Apply this filter: '' @ prompt)]
           (js ''filter''))) \<and>
   (length (sent (snd (generateStyledImage h f prompt))) = 2 \<longrightarrow>
      (\<exists>imagePart. fileToGenerativePart h f = Inr imagePart \<and>
         first_attempt_refused h
           [imagePart, text_part (js ''Apply this artistic style: '' @ prompt)]
           (js ''apply style''))) \<and>
   (length (sent (snd (generateAdjustedImage h f prompt))) = 2 \<longrightarrow>
      (\<exists>imagePart. fileToGenerativePart h f = Inr imagePart \<and>
         first_attempt_refused h [imagePart, text_part (js ''Apply this adjustment: '' @ prompt)]
           (js ''adjustment''))) \<and>
   (length (sent (snd (generateTexturedImage h f prompt))) = 2 \<longrightarrow>
      (\<exists>imagePart. fileToGenerativePart h f = Inr imagePart \<and>
         first_attempt_refused h [imagePart, text_part (js ''Apply this texture: '' @ prompt)]
           (js ''texture''))) \<and>
   (length (sent (snd (generateDecadeImage h url prompt))) = 2 \<longrightarrow>
      extractDecade prompt \<noteq> None \<and>
      (\<exists>m d. match_data_url url = Some (m, d) \<and>
         first_attempt_refused h [image_part m (Some d), text_part prompt]
           (js ''generate '' @ or_null (extractDecade prompt) @ js '' image''))) \<and>
   (generateContent h 0 ps = Responds resp \<and> text_only resp \<longrightarrow>
      first_attempt_refused h ps action)"
  unfolding generateFilteredImage_def generateStyledImage_def generateAdjustedImage_def
    generateTexturedImage_def
  using single_call_sent(1) [of h f prompt hotspot] single_call_sent(2) [of h f]
    single_call_sent(3) [of h t f fs prompt] refusal_is_refused [of h ps resp action]
    with_fallback_sent [of "js ''Apply this filter: ''" "js ''filter''" h f prompt]
    with_fallback_sent [of "js ''Apply this artistic style: ''" "js ''apply style''" h f prompt]
    with_fallback_sent [of "js ''Apply this adjustment: ''" "js ''adjustment''" h f prompt]
    with_fallback_sent [of "js ''Apply this texture: ''" "js ''texture''" h f prompt]
    decade_sent [of h url prompt]
  by blast

theorem retry_at_most_once_witness:
  "length (sent (snd (generateFilteredImage refusing_host jpeg_file (js ''vintage sepia'')))) = 2 \<and>
   (\<exists>imagePart. fileToGenerativePart refusing_host jpeg_file = Inr imagePart \<and>
      first_attempt_refused refusing_host
        [imagePart, text_part (js ''Apply this filter: '' @ js ''vintage sepia'')] (js ''filter''))"
proof -
  have two: "length (sent (snd (generateFilteredImage refusing_host jpeg_file (js ''vintage sepia'')))) = 2"
    by (simp add: filter_refusing)
  then show ?thesis
    using retry_at_most_once [where h = refusing_host and f = jpeg_file
        and prompt = "js ''vintage sepia''"]
    by blast
qed

text \<open>
  C1 (as the spec states it) fails: an error need not come from a refusal to be taken for
  one. When the first call of the service is rejected with an error whose message is
  \<^verbatim>\<open>Model responded with text instead of an image\<close>, there is no response and so no
  refusal, and the filter operation still sends a second request.
\<close>

theorem retry_at_most_once_counterexample:
  "generateContent rejecting_host 0
     [image_part (js ''image/jpeg'') (Some (js ''AAAA'')),
      text_part (js ''Apply this filter: vintage sepia'')] =
     Rejects (Error (js ''Model responded with text instead of an image'')) \<and>
   generateFilteredImage rejecting_host jpeg_file (js ''vintage sepia'') =
     (Inr (js ''data:image/png;base64,iVBOR''),
      \<lparr>attempts = 2,
         sent = [[image_part (js ''image/jpeg'') (Some (js ''AAAA'')),
                  text_part (js ''Apply this filter: vintage sepia'')],
                 [image_part (js ''image/jpeg'') (Some (js ''AAAA'')),
                  text_part (js ''vintage sepia'')]]\<rparr>)"
  by code_simp

section \<open>Decade transform\<close>

text \<open>
  C6. When the service answers the first attempt of a decade transform with a refusal
  (a text only): if a decade can be extracted from the prompt, it is four digits and an
  \<^verbatim>\<open>s\<close> that occur in the prompt, it occurs in the fallback prompt, and the operation
  makes exactly one more attempt, with the same image and the fallback prompt, whose
  outcome is the outcome of the operation; if none can be extracted, no second attempt
  is made and the refusal error is the outcome.
\<close>

theorem generateDecadeImage_fallback:
  assumes url: "match_data_url url = Some (m, d)"
    and first: "generateContent h 0 [image_part m (Some d), text_part prompt] = Responds resp"
    and refusal: "text_only resp"
  shows "(\<forall>decade. extractDecade prompt = Some decade \<longrightarrow>
            generateDecadeImage h url prompt =
              callImageEditingModel h
                [image_part m (Some d), text_part (getFallbackPrompt decade)]
                (js ''generate '' @ decade @ js '' image (fallback)'')
                \<lparr>attempts = 1, sent = [[image_part m (Some d), text_part prompt]]\<rparr> \<and>
            attempts (snd (generateDecadeImage h url prompt)) = 2 \<and>
            length decade = 5 \<and> list_all is_digit (take 4 decade) \<and> decade ! 4 = 115 \<and>
            str_includes prompt decade \<and>
            str_includes (getFallbackPrompt decade) decade) \<and>
         (extractDecade prompt = None \<longrightarrow>
            generateDecadeImage h url prompt =
              (Inl (Error (js ''Model responded with text instead of an image. The prompt may have been blocked.'')),
               \<lparr>attempts = 1, sent = [[image_part m (Some d), text_part prompt]]\<rparr>))"
proof -
  let ?ps = "[image_part m (Some d), text_part prompt]"
  have "generateContent h (attempts no_calls) ?ps = Responds resp"
    using first by simp
  from call_refusal [OF this refusal]
  have call: "callImageEditingModel h ?ps action no_calls =
          (Inl (Error refusal_message), \<lparr>attempts = 1, sent = [?ps]\<rparr>)" for action
    by (simp add: no_calls_def)
  have none: "extractDecade prompt = None \<Longrightarrow>
      generateDecadeImage h url prompt = (Inl (Error refusal_message), \<lparr>attempts = 1, sent = [?ps]\<rparr>)"
    by (simp add: generateDecadeImage_def Let_def url call is_refusal_refusal)
  have some: "generateDecadeImage h url prompt =
          callImageEditingModel h [image_part m (Some d), text_part (getFallbackPrompt decade)]
            (js ''generate '' @ decade @ js '' image (fallback)'') \<lparr>attempts = 1, sent = [?ps]\<rparr>"
    if "extractDecade prompt = Some decade" for decade
    using that by (simp add: generateDecadeImage_def Let_def url call is_refusal_refusal)
  have shape: "length decade = 5 \<and> list_all is_digit (take 4 decade) \<and> decade ! 4 = 115 \<and>
      str_includes prompt decade"
    if "extractDecade prompt = Some decade" for decade
  proof -
    from extractDecade_Some [OF that] obtain pre post where
      "prompt = pre @ decade @ post" "decade_here decade" "length decade = 5"
      by blast
    then show ?thesis
      using decade_here_shape [of decade] unfolding str_includes_iff by blast
  qed
  show ?thesis
    using none some shape fallback_names_decade
    by (simp add: call_attempts refusal_message_def)
qed

theorem generateDecadeImage_fallback_witness:
  "generateDecadeImage refusing_host (js ''data:image/png;base64,AAAA'')
     (js ''a portrait as if living in the 1970s'') =
     (Inr (js ''data:image/png;base64,iVBOR''),
      \<lparr>attempts = 2,
         sent = [[image_part (js ''image/png'') (Some (js ''AAAA'')),
                  text_part (js ''a portrait as if living in the 1970s'')],
                 [image_part (js ''image/png'') (Some (js ''AAAA'')),
                  text_part (getFallbackPrompt (js ''1970s''))]]\<rparr>) \<and>
   generateDecadeImage refusing_host (js ''data:image/png;base64,AAAA'')
     (js ''a portrait as if living long ago'') =
     (Inl (Error (js ''Model responded with text instead of an image. The prompt may have been blocked.'')),
      \<lparr>attempts = 1,
         sent = [[image_part (js ''image/png'') (Some (js ''AAAA'')),
                  text_part (js ''a portrait as if living long ago'')]]\<rparr>)"
proof -
  have first: "generateContent refusing_host 0 ps = Responds text_response" for ps
    by (simp add: refusing_host_def)
  have second:
    "callImageEditingModel refusing_host
       [image_part (js ''image/png'') (Some (js ''AAAA'')), text_part (getFallbackPrompt (js ''1970s''))]
       (js ''generate '' @ js ''1970s'' @ js '' image (fallback)'')
       \<lparr>attempts = 1,
          sent = [[image_part (js ''image/png'') (Some (js ''AAAA'')),
                   text_part (js ''a portrait as if living in the 1970s'')]]\<rparr> =
     (Inr (js ''data:image/png;base64,iVBOR''),
      \<lparr>attempts = 2,
         sent = [[image_part (js ''image/png'') (Some (js ''AAAA'')),
                  text_part (js ''a portrait as if living in the 1970s'')],
                 [image_part (js ''image/png'') (Some (js ''AAAA'')),
                  text_part (getFallbackPrompt (js ''1970s''))]]\<rparr>)"
    by code_simp
  note seventies = generateDecadeImage_fallback [OF decade_example(1) first decade_example(4),
      where prompt = "js ''a portrait as if living in the 1970s''"]
  note long_ago = generateDecadeImage_fallback [OF decade_example(1) first decade_example(4),
      where prompt = "js ''a portrait as if living long ago''"]
  from seventies decade_example(2)
  have "generateDecadeImage refusing_host (js ''data:image/png;base64,AAAA'')
          (js ''a portrait as if living in the 1970s'') =
        callImageEditingModel refusing_host
          [image_part (js ''image/png'') (Some (js ''AAAA'')), text_part (getFallbackPrompt (js ''1970s''))]
          (js ''generate '' @ js ''1970s'' @ js '' image (fallback)'')
          \<lparr>attempts = 1,
             sent = [[image_part (js ''image/png'') (Some (js ''AAAA'')),
                      text_part (js ''a portrait as if living in the 1970s'')]]\<rparr>"
    by blast
  moreover from long_ago decade_example(3)
  have "generateDecadeImage refusing_host (js ''data:image/png;base64,AAAA'')
          (js ''a portrait as if living long ago'') =
        (Inl (Error (js ''Model responded with text instead of an image. The prompt may have been blocked.'')),
         \<lparr>attempts = 1,
            sent = [[image_part (js ''image/png'') (Some (js ''AAAA'')),
                     text_part (js ''a portrait as if living long ago'')]]\<rparr>)"
    by blast
  ultimately show ?thesis
    by (simp only: second simp_thms)
qed



section \<open>Fusion\<close>

lemma settle_fulfilled:
  assumes "set order \<subseteq> {..<length vs}" and "length slots = length vs"
  shows "\<exists>slots'. settle order (map Inr vs) slots = Inr slots' \<and> length slots' = length vs \<and>
           (\<forall>j<length vs. slots' ! j = (if j \<in> set order then Some (vs ! j) else slots ! j))"
  using assms
proof (induction order arbitrary: slots)
  case Nil
  then show ?case by simp
next
  case (Cons i order)
  from Cons.prems have i: "i < length vs" and rest: "set order \<subseteq> {..<length vs}"
    by simp_all
  have len: "length (slots[i := Some (vs ! i)]) = length vs"
    using Cons.prems(2) by simp
  from Cons.IH [OF rest len] obtain slots' where
    s: "settle order (map Inr vs) (slots[i := Some (vs ! i)]) = Inr slots'"
    and l: "length slots' = length vs"
    and n: "\<forall>j<length vs. slots' ! j =
              (if j \<in> set order then Some (vs ! j) else slots[i := Some (vs ! i)] ! j)"
    by blast
  have "settle (i # order) (map Inr vs) slots = Inr slots'"
    using i s by simp
  moreover have "\<forall>j<length vs. slots' ! j =
      (if j \<in> set (i # order) then Some (vs ! j) else slots ! j)"
    using n Cons.prems(2) by (auto simp add: nth_list_update)
  ultimately show ?case
    using l by blast
qed

lemma Promise_all_fulfilled: "Promise_all t (map Inr vs) = Inr vs"
proof -
  let ?order = "sort_key t [0..<length vs]"
  have "set ?order \<subseteq> {..<length vs}"
    by auto
  from settle_fulfilled [OF this, of "replicate (length vs) None"] obtain slots' where
    s: "settle ?order (map Inr vs) (replicate (length vs) None) = Inr slots'"
    and l: "length slots' = length vs"
    and n: "\<forall>j<length vs. slots' ! j =
              (if j \<in> set ?order then Some (vs ! j) else replicate (length vs) None ! j)"
    by auto
  have "map the slots' = vs"
    using l n by (intro nth_equalityI) auto
  then show ?thesis
    using s by (simp add: Promise_all_def)
qed

lemma fileToGenerativePart_image:
  "fileToGenerativePart h f = Inr p \<Longrightarrow> \<exists>m d. p = image_part m d"
  by (auto simp add: fileToGenerativePart_def split: sum.splits option.splits prod.splits)

lemma fusion_tasks:
  assumes "map (fileToGenerativePart h) sourceImages = map Inr sourceParts"
  shows "map (indexed_part h) (zip sourceImages [0..<length sourceImages]) =
           map Inr (zip sourceParts [1..<Suc (length sourceImages)])"
proof -
  have len: "length sourceParts = length sourceImages"
    using assms by (metis length_map)
  have nth: "fileToGenerativePart h (sourceImages ! i) = Inr (sourceParts ! i)"
    if "i < length sourceImages" for i
    using assms that len by (metis nth_map)
  show ?thesis
    using len by (intro nth_equalityI) (auto simp add: indexed_part_def nth simp del: upt_Suc)
qed

lemma fusion_prompt_indices:
  assumes "length sourceParts = n"
  shows "fusion_prompt (zip sourceParts [1..<Suc n]) prompt =
           js ''Fuse the images. The main image is the one I'm editing. '' @
           concat (map (\<lambda>i. js ''Source image '' @ decimal i @ js '' is provided. '') [1..<Suc n]) @
           js ''Instructions: '' @ prompt"
proof -
  have "map (\<lambda>p. js ''Source image '' @ decimal (snd p) @ js '' is provided. '')
          (zip sourceParts [1..<Suc n]) =
        map (\<lambda>i. js ''Source image '' @ decimal i @ js '' is provided. '') [1..<Suc n]"
    using assms by (intro nth_equalityI) (auto simp del: upt_Suc)
  then show ?thesis
    by (simp only: fusion_prompt_def)
qed

lemma fusion_image_parts:
  assumes "map (fileToGenerativePart h) sourceImages = map Inr sourceParts"
  shows "map (\<lambda>p. Part (inlineData (fst p)) None)
           (zip sourceParts [1..<Suc (length sourceImages)]) = sourceParts"
proof -
  have len: "length sourceParts = length sourceImages"
    using assms by (metis length_map)
  have img: "\<exists>m d. sourceParts ! i = image_part m d" if "i < length sourceImages" for i
  proof -
    have "fileToGenerativePart h (sourceImages ! i) = Inr (sourceParts ! i)"
      using assms that len by (metis nth_map)
    then show ?thesis
      by (rule fileToGenerativePart_image)
  qed
  have "Part (inlineData (sourceParts ! i)) None = sourceParts ! i"
    if "i < length sourceImages" for i
  proof -
    from img [OF that] obtain m d where "sourceParts ! i = image_part m d"
      by blast
    then show ?thesis
      by (simp add: image_part_def)
  qed
  then show ?thesis
    using len by (intro nth_equalityI) (auto simp del: upt_Suc)
qed

lemma fusion_example:
  "fileToGenerativePart answering_host jpeg_file =
     Inr (image_part (js ''image/jpeg'') (Some (js ''AAAA'')))"
  "map (fileToGenerativePart answering_host) [webp_file, jpeg_file] =
     map Inr [image_part (js ''image/png'') (Some (js ''AAAA'')),
              image_part (js ''image/jpeg'') (Some (js ''AAAA''))]"
  by code_simp+

text \<open>
  C9. For a fusion of a main image and \<open>N\<close> source images that all normalize, whatever
  the order \<open>t\<close> in which the source images finish: the request is the part of the main
  image, the parts of the source images in the order given, and one text part that names
  the source images 1 to \<open>N\<close> in that order before the instructions. All parts but the
  last are inline image parts, \<open>N + 1\<close> of them. It is the only request sent (none is,
  when no client can be made).
\<close>

theorem generateFusedImage_request:
  assumes main: "fileToGenerativePart h mainImage = Inr mainPart"
    and sources: "map (fileToGenerativePart h) sourceImages = map Inr sourceParts"
    and request: "request =
        mainPart # sourceParts @
        [text_part
           (js ''Fuse the images. The main image is the one I'm editing. '' @
            concat (map (\<lambda>i. js ''Source image '' @ decimal i @ js '' is provided. '')
                      [1..<Suc (length sourceImages)]) @
            js ''Instructions: '' @ prompt)]"
  shows "sent (snd (generateFusedImage h t mainImage sourceImages prompt)) =
           (case generateContent h 0 request of NoClient m \<Rightarrow> [] | _ \<Rightarrow> [request]) \<and>
         length sourceParts = length sourceImages \<and>
         list_all (\<lambda>p. \<exists>m d. p = image_part m d) (mainPart # sourceParts)"
proof -
  have len: "length sourceParts = length sourceImages"
    using sources by (metis length_map)
  have all: "Promise_all t (map (indexed_part h) (zip sourceImages [0..<length sourceImages])) =
          Inr (zip sourceParts [1..<Suc (length sourceImages)])"
    by (simp only: fusion_tasks [OF sources] Promise_all_fulfilled)
  have parts: "[mainPart] @
          map (\<lambda>p. Part (inlineData (fst p)) None) (zip sourceParts [1..<Suc (length sourceImages)]) @
          [text_part (fusion_prompt (zip sourceParts [1..<Suc (length sourceImages)]) prompt)] =
        request"
    by (simp only: fusion_image_parts [OF sources] fusion_prompt_indices [OF len] request) simp
  have "generateFusedImage h t mainImage sourceImages prompt =
          (case callImageEditingModel h request [21512, 25104] no_calls of
             (Inr url, st) \<Rightarrow> (Inr url, st)
           | (Inl e, st) \<Rightarrow> (Inl (handleApiError h e (js ''fusion'')), st))"
    by (simp only: generateFusedImage_def Let_def main all sum.case parts)
  then have "sent (snd (generateFusedImage h t mainImage sourceImages prompt)) =
          sent (snd (callImageEditingModel h request [21512, 25104] no_calls))"
    by (simp split: prod.split sum.split)
  then have "sent (snd (generateFusedImage h t mainImage sourceImages prompt)) =
           (case generateContent h 0 request of NoClient m \<Rightarrow> [] | _ \<Rightarrow> [request])"
    by (simp add: call_sent)
  moreover have "list_all (\<lambda>p. \<exists>m d. p = image_part m d) (mainPart # sourceParts)"
  proof -
    have "\<exists>m d. p = image_part m d" if "p \<in> set sourceParts" for p
    proof -
      from that obtain i where i: "i < length sourceParts" "p = sourceParts ! i"
        by (metis in_set_conv_nth)
      then have "fileToGenerativePart h (sourceImages ! i) = Inr p"
        using sources len by (metis nth_map)
      then show ?thesis
        by (rule fileToGenerativePart_image)
    qed
    then show ?thesis
      using fileToGenerativePart_image [OF main] by (simp add: list_all_iff)
  qed
  ultimately show ?thesis
    using len by blast
qed

theorem generateFusedImage_request_witness:
  "sent (snd (generateFusedImage answering_host (\<lambda>i. 5 - i) jpeg_file [webp_file, jpeg_file]
                (js ''blend them''))) =
     [[image_part (js ''image/jpeg'') (Some (js ''AAAA'')),
       image_part (js ''image/png'') (Some (js ''AAAA'')),
       image_part (js ''image/jpeg'') (Some (js ''AAAA'')),
       text_part (js ''Fuse the images. The main image is the one I'm editing. Source image 1 is provided. Source image 2 is provided. Instructions: blend them'')]]"
proof -
  have full: "js ''Fuse the images. The main image is the one I'm editing. '' @
      concat (map (\<lambda>i. js ''Source image '' @ decimal i @ js '' is provided. '')
                [1..<Suc (length [webp_file, jpeg_file])]) @
      js ''Instructions: '' @ js ''blend them'' =
      js ''Fuse the images. The main image is the one I'm editing. Source image 1 is provided. Source image 2 is provided. Instructions: blend them''"
    by code_simp
  have reply: "generateContent answering_host 0 ps = Responds image_response" for ps
    by (simp add: answering_host_def)
  show ?thesis
    using generateFusedImage_request [OF fusion_example(1) fusion_example(2) refl,
        where prompt = "js ''blend them''" and t = "\<lambda>i. 5 - i"]
    by (simp only: full reply reply.case append_Cons append_Nil)
qed

end
